theory Spec2Isabelle
  imports Complex_Main
begin

section \<open>MWEM: the adaptive select, measure, re-estimate loop (mechanisms/mwem.py)\<close>

text \<open>
  The theory embeds the two methods of class \<open>MWEM\<close>, \<open>worst_approximated\<close> and
  \<open>run\<close>, as HOL functions. Everything the file imports (the estimator engine, the fitted
  model, the dataset, \<open>GraphicalModel\<close>, \<open>ParticleModel\<close>, numpy's random module) is
  a parameter of the embedding: a record of functions, each of which may raise.

  Numbers. A Python \<open>float\<close> is a \<open>real\<close>, with Python's \<open>ZeroDivisionError\<close> written
  out. A numpy float is an \<open>npfloat\<close>: a real or \<open>NaN\<close>, since \<open>np.sqrt\<close> of a negative
  number is \<open>nan\<close> (with a warning) and not an exception. Rounding, overflow and
  infinities are not modelled.
\<close>

subsection \<open>Values\<close>

type_synonym clique = "string list"

datatype npfloat = Fin real | NaN

type_synonym vec = "npfloat list"

datatype py_error =
    ZeroDivisionError
  | ValueError string
  | KeyError
  | IndexError
  | UnboundLocalError
  | ExternalError string

text \<open>The operator \<open>sparse.eye(n)\<close>, and a measurement \<open>(Q, y, 1.0, ax)\<close>.\<close>

datatype operator = Eye nat

type_synonym measurement = "operator \<times> vec \<times> real \<times> clique"

subsection \<open>numpy arithmetic\<close>

fun np_add :: "npfloat \<Rightarrow> npfloat \<Rightarrow> npfloat" where
  "np_add (Fin a) (Fin b) = Fin (a + b)"
| "np_add _ _ = NaN"

fun np_sub :: "npfloat \<Rightarrow> npfloat \<Rightarrow> npfloat" where
  "np_sub (Fin a) (Fin b) = Fin (a - b)"
| "np_sub _ _ = NaN"

fun np_mul :: "npfloat \<Rightarrow> npfloat \<Rightarrow> npfloat" where
  "np_mul (Fin a) (Fin b) = Fin (a * b)"
| "np_mul _ _ = NaN"

text \<open>
  numpy divides by zero without raising: the quotient is \<open>inf\<close> or \<open>nan\<close>. The only numpy
  division of the file is \<open>0.5 * eps / self.sensitivity\<close>, whose quotient multiplies
  \<open>errors - errors.max()\<close>, a vector with an entry \<open>0\<close> (or \<open>nan\<close>): \<open>inf * 0\<close> is \<open>nan\<close>,
  and one \<open>nan\<close> makes every entry of the softmax \<open>nan\<close>. So \<open>NaN\<close> stands for both.
\<close>

fun np_div :: "npfloat \<Rightarrow> npfloat \<Rightarrow> npfloat" where
  "np_div (Fin a) (Fin b) = (if b = 0 then NaN else Fin (a / b))"
| "np_div _ _ = NaN"

fun np_abs :: "npfloat \<Rightarrow> npfloat" where
  "np_abs (Fin a) = Fin \<bar>a\<bar>"
| "np_abs NaN = NaN"

fun np_exp :: "npfloat \<Rightarrow> npfloat" where
  "np_exp (Fin a) = Fin (exp a)"
| "np_exp NaN = NaN"

fun np_maximum :: "npfloat \<Rightarrow> npfloat \<Rightarrow> npfloat" where
  "np_maximum (Fin a) (Fin b) = Fin (max a b)"
| "np_maximum _ _ = NaN"

text \<open>\<open>np.sqrt(x)\<close> of a Python float.\<close>

definition np_sqrt :: "real \<Rightarrow> npfloat" where
  "np_sqrt x = (if x < 0 then NaN else Fin (sqrt x))"

text \<open>\<open>a.sum()\<close>; the sum of the empty array is \<open>0.0\<close>.\<close>

fun np_sum :: "vec \<Rightarrow> npfloat" where
  "np_sum [] = Fin 0"
| "np_sum (x # xs) = np_add x (np_sum xs)"

text \<open>\<open>a.max()\<close>: raises on an empty array, and is \<open>nan\<close> as soon as one entry is.\<close>

definition zero_size_max :: string where
  "zero_size_max = ''zero-size array to reduction operation maximum which has no identity''"

fun np_max :: "vec \<Rightarrow> py_error + npfloat" where
  "np_max [] = Inl (ValueError zero_size_max)"
| "np_max (x # xs) = Inr (foldl np_maximum x xs)"

text \<open>
  A binary operation on two one-dimensional arrays, with numpy's broadcasting: equal
  lengths go entry by entry, a one-entry array is stretched, any other pair raises.
\<close>

definition broadcast :: "(npfloat \<Rightarrow> npfloat \<Rightarrow> npfloat) \<Rightarrow> vec \<Rightarrow> vec \<Rightarrow> py_error + vec" where
  "broadcast f x y =
     (if length x = length y then Inr (map2 f x y)
      else if length x = 1 then Inr (map (f (hd x)) y)
      else if length y = 1 then Inr (map (\<lambda>a. f a (hd y)) x)
      else Inl (ValueError ''operands could not be broadcast together''))"

text \<open>
  \<open>scipy.special.softmax\<close> of a one-dimensional array, as scipy documents it:
  \<open>exp(x) / sum(exp(x))\<close>. One \<open>nan\<close> entry makes the sum, and so every entry, \<open>nan\<close>.
\<close>

definition softmax :: "vec \<Rightarrow> vec" where
  "softmax x = (let ex = map np_exp x; s = np_sum ex in map (\<lambda>e. np_div e s) ex)"

text \<open>\<open>xs[i]\<close> on a Python list: a negative index counts from the end.\<close>

definition py_index :: "'a list \<Rightarrow> int \<Rightarrow> py_error + 'a" where
  "py_index xs i =
     (if 0 \<le> i \<and> i < int (length xs) then Inr (xs ! nat i)
      else if i < 0 \<and> - int (length xs) \<le> i then Inr (xs ! nat (int (length xs) + i))
      else Inl IndexError)"

subsection \<open>The collaborators\<close>

text \<open>
  Modelled from the spec: the class \<open>Domain\<close> is not in the sources. The spec gives it as a
  mapping from attribute name to finite cardinality, with \<open>domain.size(clique)\<close> the product
  of the cardinalities of the clique's attributes; an unknown attribute is a \<open>KeyError\<close>.
\<close>

type_synonym attr_domain = "string \<rightharpoonup> nat"

definition domain_size :: "attr_domain \<Rightarrow> clique \<Rightarrow> py_error + nat" where
  "domain_size d cl =
     (if \<forall>a \<in> set cl. d a \<noteq> None then Inr (prod_list (map (\<lambda>a. the (d a)) cl))
      else Inl KeyError)"

text \<open>
  The private dataset: \<open>data.domain\<close>, \<open>data.records\<close>, and \<open>data.project(cl).datavector()\<close>.
\<close>

record dataset =
  data_domain :: attr_domain
  data_records :: nat
  data_vector :: "clique \<Rightarrow> py_error + vec"

text \<open>
  The mechanism object \<open>self\<close>: the attributes \<open>__init__\<close> sets (\<open>self.k\<close> is \<open>degree\<close>
  here) and those of the parent class \<open>Mechanism\<close> that the two methods read
  (\<open>rho\<close>, \<open>bounded\<close>, \<open>prng\<close>, \<open>sensitivity\<close>, \<open>marginal_sensitivity\<close>).
\<close>

record ('i, 'p) mwem =
  degree :: nat
  rounds :: int
  data_init :: 'i
  max_model_size :: real
  rho :: real
  bounded :: bool
  prng :: 'p
  sensitivity :: real
  marginal_sensitivity :: real

text \<open>
  The calls the two methods make, in the order they make them: a log kept beside the
  state of numpy's global generator. \<open>Select\<close> is the entry into \<open>worst_approximated\<close>
  with the model, candidate list and \<open>eps\<close> it was given; the others are calls out of the
  file, with what they returned.
\<close>

datatype 'm call =
    DataVector clique
  | Estimate "measurement list" "nat option" "py_error + 'm \<times> real"
  | NewParticleModel "py_error + 'm"
  | Select 'm "clique list" npfloat
  | Choice nat vec "py_error + int"
  | Normal real npfloat nat "py_error + vec"
  | SyntheticData 'm "int option"

record ('m, 'g) world =
  np_state :: 'g
  calls :: "'m call list"

type_synonym ('a, 'm, 'g) eff = "('m, 'g) world \<Rightarrow> (py_error + 'a) \<times> ('m, 'g) world"

text \<open>
  The engine: \<open>isinstance(engine, FactoredInference)\<close> is the constructor test. Any other
  engine has \<open>embedding\<close> and \<open>n_particles\<close>. Both have \<open>estimate(measurements, total)\<close>,
  which may draw from the ambient random state.
\<close>

type_synonym ('m, 'g) estimate_fn =
  "measurement list \<Rightarrow> nat option \<Rightarrow> 'g \<Rightarrow> (py_error + 'm \<times> real) \<times> 'g"

datatype ('m, 'g, 'e) engine =
    FactoredInference "('m, 'g) estimate_fn"
  | AdvancedSlicedInference "('m, 'g) estimate_fn" 'e nat

fun estimate :: "('m, 'g, 'e) engine \<Rightarrow> ('m, 'g) estimate_fn" where
  "estimate (FactoredInference f) = f"
| "estimate (AdvancedSlicedInference f _ _) = f"

text \<open>
  The other names the file imports: the model's \<open>domain\<close>, \<open>project(cl).datavector()\<close> and
  \<open>synthetic_data(records)\<close>; \<open>GraphicalModel(domain, cliques).size\<close>;
  \<open>ParticleModel(domain, embedding, n_particles, data_init)\<close>;
  \<open>np.random.choice(n, p)\<close> and \<open>np.random.normal(loc, scale, size)\<close>.
\<close>

record ('m, 'g, 'd, 'e, 'i) env =
  model_domain :: "'m \<Rightarrow> attr_domain"
  model_project :: "'m \<Rightarrow> clique \<Rightarrow> py_error + vec"
  synthetic_data :: "'m \<Rightarrow> int option \<Rightarrow> 'g \<Rightarrow> (py_error + 'd) \<times> 'g"
  GraphicalModel_size :: "attr_domain \<Rightarrow> clique list \<Rightarrow> py_error + real"
  ParticleModel :: "attr_domain \<Rightarrow> 'e \<Rightarrow> nat \<Rightarrow> 'i \<Rightarrow> 'g \<Rightarrow> (py_error + 'm) \<times> 'g"
  np_random_choice :: "nat \<Rightarrow> vec \<Rightarrow> 'g \<Rightarrow> (py_error + int) \<times> 'g"
  np_random_normal :: "real \<Rightarrow> npfloat \<Rightarrow> nat \<Rightarrow> 'g \<Rightarrow> (py_error + vec) \<times> 'g"

subsection \<open>Sequencing: an exception ends the method, the effects made so far stay\<close>

definition ret :: "'a \<Rightarrow> ('a, 'm, 'g) eff" where
  "ret a w = (Inr a, w)"

definition lift :: "py_error + 'a \<Rightarrow> ('a, 'm, 'g) eff" where
  "lift r w = (r, w)"

definition bnd :: "('a, 'm, 'g) eff \<Rightarrow> ('a \<Rightarrow> ('b, 'm, 'g) eff) \<Rightarrow> ('b, 'm, 'g) eff" where
  "bnd f k w = (case f w of (Inl e, w') \<Rightarrow> (Inl e, w') | (Inr a, w') \<Rightarrow> k a w')"

definition log :: "'m call \<Rightarrow> (unit, 'm, 'g) eff" where
  "log c w = (Inr (), w\<lparr>calls := calls w @ [c]\<rparr>)"

text \<open>A call that draws from the ambient random state, logged with its result.\<close>

definition ext_call ::
  "('g \<Rightarrow> (py_error + 'a) \<times> 'g) \<Rightarrow> ((py_error + 'a) \<Rightarrow> 'm call) \<Rightarrow> ('a, 'm, 'g) eff" where
  "ext_call f ev w =
     (case f (np_state w) of (r, g') \<Rightarrow> (r, \<lparr>np_state = g', calls = calls w @ [ev r]\<rparr>))"

subsection \<open>\<open>MWEM.worst_approximated\<close> (lines 41 to 71)\<close>

text \<open>
  Python hands the method its dictionary, model and list by reference. The embedding
  hands them over as a record and gets the record back with the result, so that what
  the method does to them is part of what it returns.
\<close>

record 'm sel_args =
  arg_workload_answers :: "clique \<rightharpoonup> vec"
  arg_est :: 'm
  arg_workload :: "clique list"

text \<open>
  Lines 62 to 67, the loop \<open>for cl in workload\<close> that appends one score to \<open>errors\<close>:
  \<open>bias\<close> first, then \<open>workload_answers[cl]\<close> (a \<open>KeyError\<close> when \<open>cl\<close> is no key), then
  the model's projection, then \<open>np.abs(x - xest).sum() - bias\<close>.
\<close>

fun errors_loop ::
  "('m, 'g, 'd, 'e, 'i) env \<Rightarrow> 'm sel_args \<Rightarrow> bool \<Rightarrow> clique list \<Rightarrow> vec \<Rightarrow> py_error + vec" where
  "errors_loop E a penalty [] errors = Inr errors"
| "errors_loop E a penalty (cl # cls) errors =
     (case (if penalty then domain_size (model_domain E (arg_est a)) cl else Inr 0) of
        Inl e \<Rightarrow> Inl e
      | Inr bias \<Rightarrow>
     (case arg_workload_answers a cl of
        None \<Rightarrow> Inl KeyError
      | Some x \<Rightarrow>
     (case model_project E (arg_est a) cl of
        Inl e \<Rightarrow> Inl e
      | Inr xest \<Rightarrow>
     (case broadcast np_sub x xest of
        Inl e \<Rightarrow> Inl e
      | Inr d \<Rightarrow>
          errors_loop E a penalty cls
            (errors @ [np_sub (np_sum (map np_abs d)) (Fin (real bias))])))))"

text \<open>
  Line 69: \<open>softmax(0.5 * eps / self.sensitivity * (errors - errors.max()))\<close>, for an
  \<open>eps\<close> that is a numpy float, as the one \<open>run\<close> passes, and a \<open>self.sensitivity\<close> that
  is a Python float.
\<close>

definition selection_prob :: "('i, 'p) mwem \<Rightarrow> npfloat \<Rightarrow> vec \<Rightarrow> npfloat \<Rightarrow> vec" where
  "selection_prob M eps errors mx =
     softmax (map (\<lambda>e. np_mul (np_div (np_mul (Fin 0.5) eps) (Fin (sensitivity M))) (np_sub e mx))
                errors)"

definition worst_approximated ::
  "('m, 'g, 'd, 'e, 'i) env \<Rightarrow> ('i, 'p) mwem \<Rightarrow> 'm sel_args \<Rightarrow> npfloat \<Rightarrow> bool
     \<Rightarrow> (clique \<times> 'm sel_args, 'm, 'g) eff" where
  "worst_approximated E M a eps penalty =
     bnd (log (Select (arg_est a) (arg_workload a) eps)) (\<lambda>_.
     bnd (lift (errors_loop E a penalty (arg_workload a) [])) (\<lambda>errors.
     bnd (lift (np_max errors)) (\<lambda>mx.
     bnd (ext_call (np_random_choice E (length errors) (selection_prob M eps errors mx))
            (Choice (length errors) (selection_prob M eps errors mx))) (\<lambda>key.
     bnd (lift (py_index (arg_workload a) key)) (\<lambda>cl.
     ret (cl, a))))))"

subsection \<open>\<open>MWEM.run\<close> (lines 73 to 155)\<close>

text \<open>
  Lines 94 to 98. \<open>self.rho\<close>, \<open>alpha\<close> and \<open>self.rounds\<close> are Python numbers (a float, a
  float, an int), not numpy scalars: \<open>rho / rounds\<close> and \<open>0.5 / (alpha * rho_per_round)\<close>
  raise on a zero divisor. \<open>np.sqrt\<close> does not raise. The local \<open>rounds\<close> is written
  \<open>rnds\<close> here and \<open>total\<close> is written \<open>tot\<close>, since \<open>rounds\<close> is the attribute of the
  mechanism and \<open>total\<close> a constant of HOL.
\<close>

definition budget ::
  "('i, 'p) mwem \<Rightarrow> clique list \<Rightarrow> real \<Rightarrow> py_error + int \<times> npfloat \<times> npfloat" where
  "budget M workload alpha =
     (let rnds = min (int (length workload)) (rounds M) in
      if rnds = 0 then Inl ZeroDivisionError
      else let rho_per_round = rho M / real_of_int rnds in
        if alpha * rho_per_round = 0 then Inl ZeroDivisionError
        else Inr (rnds,
                  np_sqrt (0.5 / (alpha * rho_per_round)),
                  np_sqrt (8 * (1 - alpha) * rho_per_round)))"

text \<open>The local variables of \<open>run\<close> that the rounds read and write; \<open>loss\<close> starts unbound.\<close>

record 'm locals =
  workload :: "clique list"
  workload_answers :: "clique \<rightharpoonup> vec"
  measurements :: "measurement list"
  est :: 'm
  cliques :: "clique list"
  loss :: "real option"

text \<open>Lines 105 to 107: \<open>{cl: data.project(cl).datavector() for cl in workload}\<close>.\<close>

fun answers_loop ::
  "dataset \<Rightarrow> clique list \<Rightarrow> (clique \<rightharpoonup> vec) \<Rightarrow> (clique \<rightharpoonup> vec, 'm, 'g) eff" where
  "answers_loop D [] wa = ret wa"
| "answers_loop D (cl # cls) wa =
     bnd (log (DataVector cl)) (\<lambda>_.
     bnd (lift (data_vector D cl)) (\<lambda>v.
     answers_loop D cls (wa(cl \<mapsto> v))))"

text \<open>Lines 110 to 118: the model the first round selects with.\<close>

definition init_model ::
  "('m, 'g, 'd, 'e, 'i) env \<Rightarrow> ('i, 'p) mwem \<Rightarrow> dataset \<Rightarrow> ('m, 'g, 'e) engine \<Rightarrow> nat option
     \<Rightarrow> ('m, 'm, 'g) eff" where
  "init_model E M D engine tot =
     (case engine of
        FactoredInference f \<Rightarrow>
          bnd (ext_call (f [] tot) (Estimate [] tot)) (\<lambda>(m, _). ret m)
      | AdvancedSlicedInference f embedding n_particles \<Rightarrow>
          ext_call (ParticleModel E (data_domain D) embedding n_particles (data_init M))
            NewParticleModel)"

definition run_init ::
  "('m, 'g, 'd, 'e, 'i) env \<Rightarrow> ('i, 'p) mwem \<Rightarrow> dataset \<Rightarrow> clique list \<Rightarrow> ('m, 'g, 'e) engine
     \<Rightarrow> real \<Rightarrow> (int \<times> npfloat \<times> npfloat \<times> nat option \<times> 'm locals, 'm, 'g) eff" where
  "run_init E M D wl engine alpha =
     bnd (lift (budget M wl alpha)) (\<lambda>(rnds, sigma, exp_eps).
     let tot = (if bounded M then Some (data_records D) else None) in
     bnd (answers_loop D wl Map.empty) (\<lambda>wa.
     bnd (init_model E M D engine tot) (\<lambda>m.
     ret (rnds, sigma, exp_eps, tot,
          \<lparr>workload = wl, workload_answers = wa, measurements = [], est = m,
           cliques = [], loss = None\<rparr>))))"

text \<open>Lines 102 and 103: \<open>size(cliques)\<close>, in megabytes.\<close>

definition size_cliques ::
  "('m, 'g, 'd, 'e, 'i) env \<Rightarrow> attr_domain \<Rightarrow> clique list \<Rightarrow> py_error + real" where
  "size_cliques E d cs =
     (case GraphicalModel_size E d cs of Inl e \<Rightarrow> Inl e | Inr s \<Rightarrow> Inr (s * 8 / 2 ^ 20))"

text \<open>
  Lines 122 to 126: the candidates of a round, the cliques \<open>cl\<close> of the workload with
  \<open>size(cliques + [cl]) <= cap\<close>, in the workload's order.
\<close>

fun candidates_loop ::
  "('m, 'g, 'd, 'e, 'i) env \<Rightarrow> attr_domain \<Rightarrow> clique list \<Rightarrow> real \<Rightarrow> clique list
     \<Rightarrow> py_error + clique list" where
  "candidates_loop E d cs cap [] = Inr []"
| "candidates_loop E d cs cap (cl # wl) =
     (case size_cliques E d (cs @ [cl]) of
        Inl e \<Rightarrow> Inl e
      | Inr s \<Rightarrow>
     (case candidates_loop E d cs cap wl of
        Inl e \<Rightarrow> Inl e
      | Inr rest \<Rightarrow> Inr (if s \<le> cap then cl # rest else rest)))"

text \<open>
  Lines 121 to 141: the selection of round \<open>i\<close>. The \<open>print\<close> of line 130 only writes to
  the terminal and is left out. What \<open>worst_approximated\<close> hands back replaces the
  objects it was given: the dictionary and the model in both branches, and the workload
  list itself in the second, where the method gets that very list.
\<close>

definition select_step ::
  "('m, 'g, 'd, 'e, 'i) env \<Rightarrow> ('i, 'p) mwem \<Rightarrow> dataset \<Rightarrow> ('m, 'g, 'e) engine \<Rightarrow> int
     \<Rightarrow> npfloat \<Rightarrow> int \<Rightarrow> 'm locals \<Rightarrow> (clique \<times> 'm locals, 'm, 'g) eff" where
  "select_step E M D engine rnds exp_eps i loc =
     (case engine of
        FactoredInference _ \<Rightarrow>
          bnd (lift (candidates_loop E (data_domain D) (cliques loc)
                       (max_model_size M * real_of_int i / real_of_int rnds) (workload loc)))
            (\<lambda>candidates.
          bnd (worst_approximated E M
                 \<lparr>arg_workload_answers = workload_answers loc, arg_est = est loc,
                  arg_workload = candidates\<rparr> exp_eps True) (\<lambda>(ax, a).
          ret (ax, loc\<lparr>workload_answers := arg_workload_answers a, est := arg_est a\<rparr>)))
      | AdvancedSlicedInference _ _ _ \<Rightarrow>
          bnd (worst_approximated E M
                 \<lparr>arg_workload_answers = workload_answers loc, arg_est = est loc,
                  arg_workload = workload loc\<rparr> exp_eps True) (\<lambda>(ax, a).
          ret (ax, loc\<lparr>workload_answers := arg_workload_answers a, est := arg_est a,
                       workload := arg_workload a\<rparr>)))"

text \<open>Lines 143 to 152: measure the selected marginal, log it, re-estimate.\<close>

definition measure_step ::
  "('m, 'g, 'd, 'e, 'i) env \<Rightarrow> ('i, 'p) mwem \<Rightarrow> dataset \<Rightarrow> ('m, 'g, 'e) engine \<Rightarrow> npfloat
     \<Rightarrow> nat option \<Rightarrow> clique \<Rightarrow> 'm locals \<Rightarrow> ('m locals, 'm, 'g) eff" where
  "measure_step E M D engine sigma tot ax loc =
     bnd (lift (domain_size (data_domain D) ax)) (\<lambda>n.
     bnd (log (DataVector ax)) (\<lambda>_.
     bnd (lift (data_vector D ax)) (\<lambda>x.
     bnd (ext_call (np_random_normal E 0 (np_mul (Fin (marginal_sensitivity M)) sigma) n)
            (Normal 0 (np_mul (Fin (marginal_sensitivity M)) sigma) n)) (\<lambda>noise.
     bnd (lift (broadcast np_add x noise)) (\<lambda>y.
     bnd (ext_call (estimate engine (measurements loc @ [(Eye n, y, 1, ax)]) tot)
            (Estimate (measurements loc @ [(Eye n, y, 1, ax)]) tot)) (\<lambda>(m, l).
     ret (loc\<lparr>measurements := measurements loc @ [(Eye n, y, 1, ax)], est := m,
               loss := Some l, cliques := cliques loc @ [ax]\<rparr>)))))))"

definition round_body ::
  "('m, 'g, 'd, 'e, 'i) env \<Rightarrow> ('i, 'p) mwem \<Rightarrow> dataset \<Rightarrow> ('m, 'g, 'e) engine \<Rightarrow> int
     \<Rightarrow> npfloat \<Rightarrow> npfloat \<Rightarrow> nat option \<Rightarrow> int \<Rightarrow> 'm locals \<Rightarrow> ('m locals, 'm, 'g) eff" where
  "round_body E M D engine rnds sigma exp_eps tot i loc =
     bnd (select_step E M D engine rnds exp_eps i loc) (\<lambda>(ax, loc').
     measure_step E M D engine sigma tot ax loc')"

text \<open>Line 120: \<open>for i in range(1, rounds + 1)\<close>, over the list of the indices.\<close>

fun round_loop ::
  "('m, 'g, 'd, 'e, 'i) env \<Rightarrow> ('i, 'p) mwem \<Rightarrow> dataset \<Rightarrow> ('m, 'g, 'e) engine \<Rightarrow> int
     \<Rightarrow> npfloat \<Rightarrow> npfloat \<Rightarrow> nat option \<Rightarrow> int list \<Rightarrow> 'm locals \<Rightarrow> ('m locals, 'm, 'g) eff" where
  "round_loop E M D engine rnds sigma exp_eps tot [] loc = ret loc"
| "round_loop E M D engine rnds sigma exp_eps tot (i # is) loc =
     bnd (round_body E M D engine rnds sigma exp_eps tot i loc)
       (round_loop E M D engine rnds sigma exp_eps tot is)"

text \<open>
  The run up to the end of round \<open>k\<close>: lines 94 to 119, then the rounds \<open>1\<close> to \<open>k\<close>.
  With \<open>k = rounds\<close> it is the run up to line 153.
\<close>

definition run_upto ::
  "('m, 'g, 'd, 'e, 'i) env \<Rightarrow> ('i, 'p) mwem \<Rightarrow> dataset \<Rightarrow> clique list \<Rightarrow> ('m, 'g, 'e) engine
     \<Rightarrow> real \<Rightarrow> int \<Rightarrow> ('m locals, 'm, 'g) eff" where
  "run_upto E M D wl engine alpha k =
     bnd (run_init E M D wl engine alpha) (\<lambda>(rnds, sigma, exp_eps, tot, loc).
     round_loop E M D engine rnds sigma exp_eps tot [1..k] loc)"

definition run_rounds ::
  "('m, 'g, 'd, 'e, 'i) env \<Rightarrow> ('i, 'p) mwem \<Rightarrow> dataset \<Rightarrow> clique list \<Rightarrow> ('m, 'g, 'e) engine
     \<Rightarrow> real \<Rightarrow> ('m locals, 'm, 'g) eff" where
  "run_rounds E M D wl engine alpha =
     bnd (run_init E M D wl engine alpha) (\<lambda>(rnds, sigma, exp_eps, tot, loc).
     round_loop E M D engine rnds sigma exp_eps tot [1..rnds] loc)"

text \<open>
  Line 155: \<open>return est.synthetic_data(records), loss\<close>. The call comes first; reading
  \<open>loss\<close> raises when no round has bound it.
\<close>

definition run_eff ::
  "('m, 'g, 'd, 'e, 'i) env \<Rightarrow> ('i, 'p) mwem \<Rightarrow> dataset \<Rightarrow> clique list \<Rightarrow> ('m, 'g, 'e) engine
     \<Rightarrow> real \<Rightarrow> int option \<Rightarrow> ('d \<times> real, 'm, 'g) eff" where
  "run_eff E M D wl engine alpha recs =
     bnd (run_rounds E M D wl engine alpha) (\<lambda>loc.
     bnd (ext_call (synthetic_data E (est loc) recs) (\<lambda>_. SyntheticData (est loc) recs)) (\<lambda>ds.
     (case loss loc of None \<Rightarrow> lift (Inl UnboundLocalError) | Some l \<Rightarrow> ret (ds, l))))"

text \<open>A run starts from a state \<open>g\<close> of the random generator, with an empty log.\<close>

definition fresh :: "'g \<Rightarrow> ('m, 'g) world" where
  "fresh g = \<lparr>np_state = g, calls = []\<rparr>"

definition run ::
  "('m, 'g, 'd, 'e, 'i) env \<Rightarrow> ('i, 'p) mwem \<Rightarrow> dataset \<Rightarrow> clique list \<Rightarrow> ('m, 'g, 'e) engine
     \<Rightarrow> real \<Rightarrow> int option \<Rightarrow> 'g \<Rightarrow> (py_error + 'd \<times> real) \<times> ('m, 'g) world" where
  "run E M D wl engine alpha recs g = run_eff E M D wl engine alpha recs (fresh g)"

section \<open>Auxiliary definitions\<close>

subsection \<open>What a method appends to the log\<close>

text \<open>
  \<open>appends P f\<close>: whatever \<open>f\<close> returns or raises, it leaves the log it found in place and
  appends only calls that satisfy \<open>P\<close>.
\<close>

definition appends :: "('m call \<Rightarrow> bool) \<Rightarrow> ('a, 'm, 'g) eff \<Rightarrow> bool" where
  "appends P f = (\<forall>w. \<exists>evs. calls (snd (f w)) = calls w @ evs \<and> list_all P evs)"

subsection \<open>A concrete run\<close>

text \<open>
  The scenario of the spec: the domain \<open>{A: 2, B: 3}\<close>, the workload
  \<open>[(A,), (B,), (A, B)]\<close>, two rounds. The dataset's marginals are all ones and the models'
  projections all zeros; the estimator returns the number of measurements it was given as
  its model; the generator counts its draws, always picks index \<open>0\<close> and adds zero noise;
  a graphical model over \<open>k\<close> attribute mentions costs \<open>k\<close> megabytes.
\<close>

definition ex_domain :: attr_domain where
  "ex_domain = [''A'' \<mapsto> 2, ''B'' \<mapsto> 3]"

definition ex_data :: dataset where
  "ex_data =
     \<lparr>data_domain = ex_domain, data_records = 10,
      data_vector = (\<lambda>cl. case domain_size ex_domain cl of
                             Inl e \<Rightarrow> Inl e
                           | Inr n \<Rightarrow> Inr (replicate n (Fin 1)))\<rparr>"

definition ex_env :: "(nat, nat, nat, unit, unit) env" where
  "ex_env =
     \<lparr>model_domain = (\<lambda>m. ex_domain),
      model_project = (\<lambda>m cl. case domain_size ex_domain cl of
                                 Inl e \<Rightarrow> Inl e
                               | Inr n \<Rightarrow> Inr (replicate n (Fin 0))),
      synthetic_data = (\<lambda>m recs g. (Inr (case recs of None \<Rightarrow> 10 | Some r \<Rightarrow> nat r), Suc g)),
      GraphicalModel_size = (\<lambda>d cs. Inr (real (length (concat cs)) * 2 ^ 17)),
      ParticleModel = (\<lambda>d e n i g. (Inr 100, Suc g)),
      np_random_choice = (\<lambda>n p g. (Inr 0, Suc g)),
      np_random_normal = (\<lambda>loc sc n g. (Inr (replicate n (Fin 0)), Suc g))\<rparr>"

definition ex_mwem :: "(unit, unit) mwem" where
  "ex_mwem =
     \<lparr>degree = 2, rounds = 2, data_init = (), max_model_size = 2, rho = 1, bounded = True,
      prng = (), sensitivity = 2, marginal_sensitivity = 1\<rparr>"

definition ex_fit :: "(nat, nat) estimate_fn" where
  "ex_fit ms tot g = (Inr (length ms, 0), Suc g)"

definition ex_workload :: "clique list" where
  "ex_workload = [[''A''], [''B''], [''A'', ''B'']]"

subsection \<open>What the measurement step relies on\<close>

text \<open>
  numpy's contract for \<open>np.random.normal(loc, scale, size=n)\<close>: the array it returns has
  \<open>n\<close> entries. The dataset's contract: the marginal vector of a clique has as many
  entries as the domain gives that clique.
\<close>

definition normal_contract :: "('m, 'g, 'd, 'e, 'i) env \<Rightarrow> bool" where
  "normal_contract E =
     (\<forall>loc sc n g v g'. np_random_normal E loc sc n g = (Inr v, g') \<longrightarrow> length v = n)"

definition datavector_contract :: "dataset \<Rightarrow> bool" where
  "datavector_contract D =
     (\<forall>cl n v. domain_size (data_domain D) cl = Inr n \<longrightarrow> data_vector D cl = Inr v
        \<longrightarrow> length v = n)"

text \<open>
  A measurement \<open>(Q, y, weight, ax)\<close> is well recorded, given the log of calls and the
  scale of the noise: \<open>Q\<close> is the identity of dimension \<open>n = domain.size(ax)\<close>, the
  product of the cardinalities of the attributes of \<open>ax\<close>; the weight is \<open>1.0\<close>; and \<open>y\<close> is,
  entry by entry, the dataset's marginal vector of \<open>ax\<close> plus the array that a logged call
  \<open>np.random.normal(loc=0, scale, size=n)\<close> returned; all three arrays have \<open>n\<close> entries.
\<close>

definition recorded :: "dataset \<Rightarrow> npfloat \<Rightarrow> 'm call list \<Rightarrow> measurement \<Rightarrow> bool" where
  "recorded D scale cs m =
     (case m of (Q, y, weight, ax) \<Rightarrow>
        \<exists>x noise.
          (\<forall>a \<in> set ax. data_domain D a \<noteq> None) \<and>
          Q = Eye (prod_list (map (\<lambda>a. the (data_domain D a)) ax)) \<and>
          weight = 1 \<and>
          data_vector D ax = Inr x \<and>
          Normal 0 scale (prod_list (map (\<lambda>a. the (data_domain D a)) ax)) (Inr noise) \<in> set cs \<and>
          length x = prod_list (map (\<lambda>a. the (data_domain D a)) ax) \<and>
          length noise = length x \<and>
          y = map2 np_add x noise)"

subsection \<open>The budget a call was made with\<close>

text \<open>
  \<open>split_used eps scale c\<close>: if the call \<open>c\<close> is a selection, it was given the strength
  \<open>eps\<close>; if it is a draw of Gaussian noise, it asked for mean \<open>0\<close> and the scale \<open>scale\<close>.
\<close>

definition split_used :: "npfloat \<Rightarrow> npfloat \<Rightarrow> 'm call \<Rightarrow> bool" where
  "split_used eps scale c =
     (case c of
        Select m cands e \<Rightarrow> e = eps
      | Normal loc sc n r \<Rightarrow> loc = 0 \<and> sc = scale
      | _ \<Rightarrow> True)"

subsection \<open>Where the models of a run come from\<close>

text \<open>
  Read off the log: \<open>models_made\<close> lists the models the run obtained, in order, each with
  the measurement sequence \<open>estimate\<close> was called with (\<open>None\<close> for a model built by
  \<open>ParticleModel\<close>); \<open>selections\<close> lists the models \<open>worst_approximated\<close> was called with.
\<close>

fun model_source :: "'m call \<Rightarrow> (measurement list option \<times> 'm) list" where
  "model_source (Estimate ms t (Inr (m, l))) = [(Some ms, m)]"
| "model_source (NewParticleModel (Inr m)) = [(None, m)]"
| "model_source _ = []"

fun selected_with :: "'m call \<Rightarrow> 'm list" where
  "selected_with (Select m cands e) = [m]"
| "selected_with _ = []"

definition models_made :: "'m call list \<Rightarrow> (measurement list option \<times> 'm) list" where
  "models_made cs = concat (map model_source cs)"

definition selections :: "'m call list \<Rightarrow> 'm list" where
  "selections cs = concat (map selected_with cs)"

definition first_source :: "('m, 'g, 'e) engine \<Rightarrow> measurement list option" where
  "first_source engine =
     (case engine of FactoredInference _ \<Rightarrow> Some [] | AdvancedSlicedInference _ _ _ \<Rightarrow> None)"

subsection \<open>The selection distribution, in the words of the spec\<close>

text \<open>
  Over the reals. The L1 distance of two vectors of one length; the error of a candidate:
  the L1 distance between its true marginal and the model's projected marginal, minus its
  bias, the domain size of the candidate when the penalty is set and \<open>0\<close> otherwise; the
  softmax; and the distribution over the candidates: the softmax of
  \<open>(eps / (2 * sensitivity)) * (error - max error)\<close>.
\<close>

definition l1_distance :: "real list \<Rightarrow> real list \<Rightarrow> real" where
  "l1_distance x y = (\<Sum>i<length x. \<bar>x ! i - y ! i\<bar>)"

definition spec_error ::
  "(clique \<Rightarrow> real list) \<Rightarrow> (clique \<Rightarrow> real list) \<Rightarrow> (clique \<Rightarrow> nat) \<Rightarrow> bool \<Rightarrow> clique \<Rightarrow> real" where
  "spec_error true_marginal projected dsize penalty c =
     l1_distance (true_marginal c) (projected c) - (if penalty then real (dsize c) else 0)"

definition spec_softmax :: "real list \<Rightarrow> real list" where
  "spec_softmax z = map (\<lambda>a. exp a / (\<Sum>b\<leftarrow>z. exp b)) z"

definition spec_distribution :: "real \<Rightarrow> real \<Rightarrow> real list \<Rightarrow> real list" where
  "spec_distribution eps sens errs =
     spec_softmax (map (\<lambda>e. eps / (2 * sens) * (e - Max (set errs))) errs)"

subsection \<open>Two mechanisms with the same hyperparameters\<close>

text \<open>
  Two mechanism objects agree on what \<open>__init__\<close> takes from \<open>hp\<close> and on the privacy
  constants of the parent class; their \<open>prng\<close> attributes may differ, also in type.
\<close>

definition same_hyperparameters :: "('i, 'p) mwem \<Rightarrow> ('i, 'q) mwem \<Rightarrow> bool" where
  "same_hyperparameters M' M =
     (degree M' = degree M \<and> rounds M' = rounds M \<and> data_init M' = data_init M \<and>
      max_model_size M' = max_model_size M \<and> rho M' = rho M \<and> bounded M' = bounded M \<and>
      sensitivity M' = sensitivity M \<and> marginal_sensitivity M' = marginal_sensitivity M)"

section \<open>Lemmas\<close>

subsection \<open>Sequencing\<close>

lemmas eff_defs = bnd_def lift_def ret_def log_def ext_call_def fresh_def

lemmas run_defs = run_def run_eff_def run_rounds_def run_upto_def run_init_def budget_def
  init_model_def round_body_def select_step_def measure_step_def worst_approximated_def
  size_cliques_def domain_size_def broadcast_def py_index_def np_sqrt_def Let_def upto.simps

lemmas ex_defs = ex_env_def ex_mwem_def ex_data_def ex_domain_def ex_fit_def ex_workload_def

lemma bnd_Inr_iff:
  "bnd f k w = (Inr b, w') \<longleftrightarrow> (\<exists>a w1. f w = (Inr a, w1) \<and> k a w1 = (Inr b, w'))"
  by (auto simp: bnd_def split: prod.splits sum.splits)

lemma bnd_ret [simp]: "bnd (ret a) k = k a"
  by (rule ext) (simp add: bnd_def ret_def)

lemma bnd_lift_Inr [simp]: "bnd (lift (Inr a)) k = k a"
  by (rule ext) (simp add: bnd_def lift_def)

lemma bnd_lift_Inl [simp]: "bnd (lift (Inl e)) k = lift (Inl e)"
  by (rule ext) (simp add: bnd_def lift_def)

lemma bnd_assoc: "bnd (bnd f k) h = bnd f (\<lambda>a. bnd (k a) h)"
  by (rule ext) (simp add: bnd_def split: prod.splits sum.splits)

lemma ret_Inr_iff: "ret a w = (Inr b, w') \<longleftrightarrow> b = a \<and> w' = w"
  by (auto simp: ret_def)

lemma lift_Inr_iff: "lift r w = (Inr a, w') \<longleftrightarrow> r = Inr a \<and> w' = w"
  by (auto simp: lift_def)

lemma log_Inr_iff: "log c w = (Inr u, w') \<longleftrightarrow> w' = w\<lparr>calls := calls w @ [c]\<rparr>"
  by (auto simp: log_def)

lemma ext_call_Inr_iff:
  "ext_call f ev w = (Inr a, w') \<longleftrightarrow>
     (\<exists>g'. f (np_state w) = (Inr a, g') \<and>
           w' = \<lparr>np_state = g', calls = calls w @ [ev (Inr a)]\<rparr>)"
  by (auto simp: ext_call_def split: prod.splits)

subsection \<open>The log only grows\<close>

lemma appends_ret: "appends P (ret a)"
  by (simp add: appends_def ret_def)

lemma appends_lift: "appends P (lift r)"
  by (simp add: appends_def lift_def)

lemma appends_log: "P c \<Longrightarrow> appends P (log c)"
  by (simp add: appends_def log_def)

lemma appends_ext_call: "(\<And>r. P (ev r)) \<Longrightarrow> appends P (ext_call f ev)"
  by (simp add: appends_def ext_call_def split: prod.splits)

lemma appends_bnd:
  assumes f: "appends P f"
    and k: "\<And>a w w1. f w = (Inr a, w1) \<Longrightarrow> appends P (k a)"
  shows "appends P (bnd f k)"
  unfolding appends_def
proof
  fix w
  from f obtain e1 where e1: "calls (snd (f w)) = calls w @ e1" "list_all P e1"
    unfolding appends_def by blast
  show "\<exists>evs. calls (snd (bnd f k w)) = calls w @ evs \<and> list_all P evs"
  proof (cases "f w")
    case (Pair r w1)
    show ?thesis
    proof (cases r)
      case (Inl e)
      with Pair e1 show ?thesis by (auto simp: bnd_def)
    next
      case (Inr a)
      with Pair k have "appends P (k a)" by blast
      then obtain e2 where e2: "calls (snd (k a w1)) = calls w1 @ e2" "list_all P e2"
        unfolding appends_def by blast
      with Pair Inr e1 show ?thesis by (auto simp: bnd_def)
    qed
  qed
qed

lemma appendsD:
  "appends P f \<Longrightarrow> f w = (r, w') \<Longrightarrow> \<exists>evs. calls w' = calls w @ evs \<and> list_all P evs"
  unfolding appends_def by (metis snd_conv)

lemma appends_worst_approximated:
  assumes "P (Select (arg_est a) (arg_workload a) eps)" and "\<And>n p r. P (Choice n p r)"
  shows "appends P (worst_approximated E M a eps penalty)"
  unfolding worst_approximated_def
  by (intro appends_bnd appends_log appends_lift appends_ext_call appends_ret assms)

lemma appends_answers_loop:
  assumes "\<And>c. P (DataVector c)"
  shows "appends P (answers_loop D cls wa)"
  by (induction cls arbitrary: wa)
     (auto intro!: appends_bnd appends_log appends_lift appends_ret assms)

lemma appends_init_model:
  assumes "\<And>ms t r. P (Estimate ms t r)" and "\<And>r. P (NewParticleModel r)"
  shows "appends P (init_model E M D engine tot)"
  unfolding init_model_def
  by (cases engine) (auto intro!: appends_bnd appends_ext_call appends_ret assms)

subsection \<open>What a successful step did\<close>

lemma py_index_mem: "py_index xs i = Inr x \<Longrightarrow> x \<in> set xs"
  by (auto simp: py_index_def split: if_splits)

lemma worst_approximated_Inr:
  assumes "worst_approximated E M a eps penalty w = (Inr (cl, a'), w')"
  shows "a' = a \<and>
     (\<exists>errors mx key g'.
        errors_loop E a penalty (arg_workload a) [] = Inr errors \<and>
        np_max errors = Inr mx \<and>
        np_random_choice E (length errors) (selection_prob M eps errors mx) (np_state w)
          = (Inr key, g') \<and>
        py_index (arg_workload a) key = Inr cl \<and>
        w' = \<lparr>np_state = g',
              calls = calls w @ [Select (arg_est a) (arg_workload a) eps,
                Choice (length errors) (selection_prob M eps errors mx) (Inr key)]\<rparr>)"
  using assms unfolding worst_approximated_def
  by (auto simp: bnd_Inr_iff lift_Inr_iff ret_Inr_iff log_Inr_iff ext_call_Inr_iff)

lemma candidates_loop_sound:
  "candidates_loop E d cs cap wl = Inr cands \<Longrightarrow> cl \<in> set cands \<Longrightarrow>
     cl \<in> set wl \<and> (\<exists>s. size_cliques E d (cs @ [cl]) = Inr s \<and> s \<le> cap)"
  by (induction wl arbitrary: cands) (auto split: sum.splits if_splits)

lemma select_step_Inr:
  assumes "select_step E M D engine R ee i loc w = (Inr (ax, loc'), w')"
  shows "loc' = loc \<and>
     (\<exists>cands n p key g'.
        (case engine of
           FactoredInference _ \<Rightarrow>
             candidates_loop E (data_domain D) (cliques loc)
               (max_model_size M * real_of_int i / real_of_int R) (workload loc) = Inr cands
         | AdvancedSlicedInference _ _ _ \<Rightarrow> cands = workload loc) \<and>
        ax \<in> set cands \<and>
        np_random_choice E n p (np_state w) = (Inr key, g') \<and>
        w' = \<lparr>np_state = g',
              calls = calls w @ [Select (est loc) cands ee, Choice n p (Inr key)]\<rparr>)"
proof (cases engine)
  case (FactoredInference f)
  with assms obtain cands a w1 where
    c: "candidates_loop E (data_domain D) (cliques loc)
          (max_model_size M * real_of_int i / real_of_int R) (workload loc) = Inr cands"
    and wa: "worst_approximated E M
          \<lparr>arg_workload_answers = workload_answers loc, arg_est = est loc, arg_workload = cands\<rparr>
          ee True w = (Inr (ax, a), w')"
    and l: "loc' = loc\<lparr>workload_answers := arg_workload_answers a, est := arg_est a\<rparr>"
    by (auto simp: select_step_def bnd_Inr_iff lift_Inr_iff ret_Inr_iff)
  from worst_approximated_Inr [OF wa] l c FactoredInference show ?thesis
    by (auto dest: py_index_mem)
next
  case (AdvancedSlicedInference f e n)
  with assms obtain a where
    wa: "worst_approximated E M
          \<lparr>arg_workload_answers = workload_answers loc, arg_est = est loc,
           arg_workload = workload loc\<rparr> ee True w = (Inr (ax, a), w')"
    and l: "loc' = loc\<lparr>workload_answers := arg_workload_answers a, est := arg_est a,
                       workload := arg_workload a\<rparr>"
    by (auto simp: select_step_def bnd_Inr_iff lift_Inr_iff ret_Inr_iff)
  from worst_approximated_Inr [OF wa] l AdvancedSlicedInference show ?thesis
    by (auto dest: py_index_mem)
qed

lemma measure_step_Inr:
  assumes "measure_step E M D engine sg tot ax loc w = (Inr loc', w')"
  shows "\<exists>n x noise y m l g1 g2.
      domain_size (data_domain D) ax = Inr n \<and>
      data_vector D ax = Inr x \<and>
      np_random_normal E 0 (np_mul (Fin (marginal_sensitivity M)) sg) n (np_state w)
        = (Inr noise, g1) \<and>
      broadcast np_add x noise = Inr y \<and>
      estimate engine (measurements loc @ [(Eye n, y, 1, ax)]) tot g1 = (Inr (m, l), g2) \<and>
      loc' = loc\<lparr>measurements := measurements loc @ [(Eye n, y, 1, ax)], est := m,
                 loss := Some l, cliques := cliques loc @ [ax]\<rparr> \<and>
      w' = \<lparr>np_state = g2,
            calls = calls w @
              [DataVector ax,
               Normal 0 (np_mul (Fin (marginal_sensitivity M)) sg) n (Inr noise),
               Estimate (measurements loc @ [(Eye n, y, 1, ax)]) tot (Inr (m, l))]\<rparr>"
  using assms unfolding measure_step_def
  by (auto simp: bnd_Inr_iff lift_Inr_iff ret_Inr_iff log_Inr_iff ext_call_Inr_iff)

lemma round_body_Inr:
  assumes "round_body E M D engine R sg ee tot i loc w = (Inr loc', w')"
  shows "\<exists>ax cands k p key g0 n x noise y m l g1 g2.
      (case engine of
         FactoredInference _ \<Rightarrow>
           candidates_loop E (data_domain D) (cliques loc)
             (max_model_size M * real_of_int i / real_of_int R) (workload loc) = Inr cands
       | AdvancedSlicedInference _ _ _ \<Rightarrow> cands = workload loc) \<and>
      ax \<in> set cands \<and>
      np_random_choice E k p (np_state w) = (Inr key, g0) \<and>
      domain_size (data_domain D) ax = Inr n \<and>
      data_vector D ax = Inr x \<and>
      np_random_normal E 0 (np_mul (Fin (marginal_sensitivity M)) sg) n g0 = (Inr noise, g1) \<and>
      broadcast np_add x noise = Inr y \<and>
      estimate engine (measurements loc @ [(Eye n, y, 1, ax)]) tot g1 = (Inr (m, l), g2) \<and>
      loc' = loc\<lparr>measurements := measurements loc @ [(Eye n, y, 1, ax)], est := m,
                 loss := Some l, cliques := cliques loc @ [ax]\<rparr> \<and>
      w' = \<lparr>np_state = g2,
            calls = calls w @
              [Select (est loc) cands ee, Choice k p (Inr key), DataVector ax,
               Normal 0 (np_mul (Fin (marginal_sensitivity M)) sg) n (Inr noise),
               Estimate (measurements loc @ [(Eye n, y, 1, ax)]) tot (Inr (m, l))]\<rparr>"
proof -
  from assms obtain ax loc1 w1 where
    s: "select_step E M D engine R ee i loc w = (Inr (ax, loc1), w1)"
    and m: "measure_step E M D engine sg tot ax loc1 w1 = (Inr loc', w')"
    by (auto simp: round_body_def bnd_Inr_iff)
  from select_step_Inr [OF s] obtain cands k p key g0 where
    l1: "loc1 = loc"
    and c: "(case engine of
         FactoredInference _ \<Rightarrow>
           candidates_loop E (data_domain D) (cliques loc)
             (max_model_size M * real_of_int i / real_of_int R) (workload loc) = Inr cands
       | AdvancedSlicedInference _ _ _ \<Rightarrow> cands = workload loc)"
    and ax: "ax \<in> set cands"
    and ch: "np_random_choice E k p (np_state w) = (Inr key, g0)"
    and w1: "w1 = \<lparr>np_state = g0,
              calls = calls w @ [Select (est loc) cands ee, Choice k p (Inr key)]\<rparr>"
    by blast
  from measure_step_Inr [OF m] l1 w1 c ax ch show ?thesis
    by (auto simp del: ex_simps)
qed

subsection \<open>The loop\<close>

lemma round_loop_append:
  "round_loop E M D engine R sg ee tot (xs @ ys) loc =
     bnd (round_loop E M D engine R sg ee tot xs loc) (round_loop E M D engine R sg ee tot ys)"
proof (induction xs arbitrary: loc)
  case Nil
  show ?case by simp
next
  case (Cons i xs)
  have "round_loop E M D engine R sg ee tot (xs @ ys) =
      (\<lambda>l. bnd (round_loop E M D engine R sg ee tot xs l) (round_loop E M D engine R sg ee tot ys))"
    by (rule ext) (rule Cons.IH)
  then show ?case by (simp add: bnd_assoc)
qed

lemma upto_snoc: "[1..int (Suc k)] = [1..int k] @ [int k + 1]"
  using upto_rec2 [of 1 "int (Suc k)"] by (simp add: add.commute)

lemma round_loop_snoc:
  "round_loop E M D engine R sg ee tot [1..int (Suc k)] loc w = (Inr loc', w') \<longleftrightarrow>
     (\<exists>loc1 w1. round_loop E M D engine R sg ee tot [1..int k] loc w = (Inr loc1, w1) \<and>
        round_body E M D engine R sg ee tot (int k + 1) loc1 w1 = (Inr loc', w'))"
proof -
  have "round_loop E M D engine R sg ee tot [int k + 1] =
      (\<lambda>l. round_body E M D engine R sg ee tot (int k + 1) l)"
    by (rule ext, rule ext) (simp add: bnd_def ret_def split: prod.splits sum.splits)
  then show ?thesis
    by (subst upto_snoc) (simp add: round_loop_append bnd_Inr_iff)
qed

lemma round_loop_invariant:
  assumes init: "I 0 loc0 w0"
    and step: "\<And>i loc w loc' w'. I i loc w \<Longrightarrow>
        round_body E M D engine R sg ee tot (int i + 1) loc w = (Inr loc', w') \<Longrightarrow> I (Suc i) loc' w'"
    and run: "round_loop E M D engine R sg ee tot [1..int k] loc0 w0 = (Inr loc, w)"
  shows "I k loc w"
  using run
proof (induction k arbitrary: loc w)
  case 0
  with init show ?case by (simp add: ret_Inr_iff)
next
  case (Suc k)
  then show ?case unfolding round_loop_snoc using step by blast
qed

subsection \<open>The whole run\<close>

lemma run_init_Inr:
  assumes "run_init E M D wl engine alpha w = (Inr (R, sg, ee, tot, loc0), w0)"
  shows "budget M wl alpha = Inr (R, sg, ee) \<and>
         tot = (if bounded M then Some (data_records D) else None) \<and>
         workload loc0 = wl \<and> measurements loc0 = [] \<and> cliques loc0 = [] \<and>
         loss loc0 = None \<and>
         (\<exists>w1. answers_loop D wl Map.empty w = (Inr (workload_answers loc0), w1) \<and>
               init_model E M D engine tot w1 = (Inr (est loc0), w0))"
  using assms unfolding run_init_def
  by (auto simp: bnd_Inr_iff lift_Inr_iff ret_Inr_iff Let_def)

lemma budget_Inr:
  assumes "budget M wl alpha = Inr (R, sg, ee)"
  shows "R = min (int (length wl)) (rounds M) \<and> R \<noteq> 0 \<and>
         alpha * (rho M / real_of_int R) \<noteq> 0 \<and>
         sg = np_sqrt (0.5 / (alpha * (rho M / real_of_int R))) \<and>
         ee = np_sqrt (8 * (1 - alpha) * (rho M / real_of_int R))"
  using assms by (auto simp: budget_def Let_def split: if_splits)

lemma run_upto_Inr:
  "run_upto E M D wl engine alpha k w = (Inr loc, w') \<longleftrightarrow>
     (\<exists>R sg ee tot loc0 w0.
        run_init E M D wl engine alpha w = (Inr (R, sg, ee, tot, loc0), w0) \<and>
        round_loop E M D engine R sg ee tot [1..k] loc0 w0 = (Inr loc, w'))"
  by (auto simp: run_upto_def bnd_Inr_iff)

lemma run_rounds_Inr:
  "run_rounds E M D wl engine alpha w = (Inr loc, w') \<longleftrightarrow>
     (\<exists>R sg ee tot loc0 w0.
        run_init E M D wl engine alpha w = (Inr (R, sg, ee, tot, loc0), w0) \<and>
        round_loop E M D engine R sg ee tot [1..R] loc0 w0 = (Inr loc, w'))"
  by (auto simp: run_rounds_def bnd_Inr_iff)

lemma run_Inr:
  assumes "run E M D wl engine alpha recs g = (Inr res, w)"
  shows "\<exists>loc w1 ds l g'.
      run_rounds E M D wl engine alpha (fresh g) = (Inr loc, w1) \<and>
      synthetic_data E (est loc) recs (np_state w1) = (Inr ds, g') \<and>
      loss loc = Some l \<and> res = (ds, l) \<and>
      w = \<lparr>np_state = g', calls = calls w1 @ [SyntheticData (est loc) recs]\<rparr>"
  using assms unfolding run_def run_eff_def
  by (auto simp: bnd_Inr_iff lift_Inr_iff ret_Inr_iff ext_call_Inr_iff split: option.splits)

lemma round_body_frame:
  assumes "round_body E M D engine R sg ee tot i loc w = (Inr loc', w')"
  shows "\<exists>Q y ax. measurements loc' = measurements loc @ [(Q, y, 1, ax)] \<and>
           cliques loc' = cliques loc @ [ax] \<and>
           workload loc' = workload loc \<and>
           workload_answers loc' = workload_answers loc \<and>
           loss loc' \<noteq> None"
  using round_body_Inr [OF assms] by auto

lemma round_loop_prefix:
  assumes "round_loop E M D engine R sg ee tot js loc w = (Inr loc', w')"
  shows "\<exists>sfx. measurements loc' = measurements loc @ sfx"
  using assms
proof (induction js arbitrary: loc w)
  case Nil
  then show ?case by (simp add: ret_Inr_iff)
next
  case (Cons i js)
  then obtain l1 w1 where
    b: "round_body E M D engine R sg ee tot i loc w = (Inr l1, w1)"
    and r: "round_loop E M D engine R sg ee tot js l1 w1 = (Inr loc', w')"
    by (auto simp: bnd_Inr_iff)
  from round_body_frame [OF b] Cons.IH [OF r] show ?case by auto
qed

lemma upto_split_at: "0 \<le> j \<Longrightarrow> j \<le> k \<Longrightarrow> [1..k] = [1..j] @ [j + 1..k]"
  by (cases "j = 0") (simp_all add: upto_split2)

lemma round_loop_lengths:
  assumes "round_loop E M D engine R sg ee tot [1..int k] loc0 w0 = (Inr loc, w)"
    and "measurements loc0 = []" and "cliques loc0 = []" and "loss loc0 = None"
  shows "length (measurements loc) = k \<and> length (cliques loc) = k \<and>
         map (\<lambda>(Q, y, wt, c). c) (measurements loc) = cliques loc \<and>
         workload loc = workload loc0 \<and> workload_answers loc = workload_answers loc0 \<and>
         (loss loc = None \<longleftrightarrow> k = 0)"
proof (rule round_loop_invariant [where I = "\<lambda>k loc w.
         length (measurements loc) = k \<and> length (cliques loc) = k \<and>
         map (\<lambda>(Q, y, wt, c). c) (measurements loc) = cliques loc \<and>
         workload loc = workload loc0 \<and> workload_answers loc = workload_answers loc0 \<and>
         (loss loc = None \<longleftrightarrow> k = 0)", OF _ _ assms(1)])
  show "length (measurements loc0) = 0 \<and> length (cliques loc0) = 0 \<and>
         map (\<lambda>(Q, y, wt, c). c) (measurements loc0) = cliques loc0 \<and>
         workload loc0 = workload loc0 \<and> workload_answers loc0 = workload_answers loc0 \<and>
         (loss loc0 = None \<longleftrightarrow> (0::nat) = 0)"
    using assms by simp
next
  fix i loc w loc' w'
  assume "length (measurements loc) = i \<and> length (cliques loc) = i \<and>
         map (\<lambda>(Q, y, wt, c). c) (measurements loc) = cliques loc \<and>
         workload loc = workload loc0 \<and> workload_answers loc = workload_answers loc0 \<and>
         (loss loc = None \<longleftrightarrow> i = 0)"
    and "round_body E M D engine R sg ee tot (int i + 1) loc w = (Inr loc', w')"
  then show "length (measurements loc') = Suc i \<and> length (cliques loc') = Suc i \<and>
         map (\<lambda>(Q, y, wt, c). c) (measurements loc') = cliques loc' \<and>
         workload loc' = workload loc0 \<and> workload_answers loc' = workload_answers loc0 \<and>
         (loss loc' = None \<longleftrightarrow> Suc i = 0)"
    using round_body_frame [of E M D engine R sg ee tot "int i + 1" loc w loc' w'] by auto
qed

lemma run_completes_rounds:
  assumes "run E M D wl engine alpha recs g = (Inr res, w)"
  shows "\<exists>R sg ee tot loc0 w0 loc w1.
      run_init E M D wl engine alpha (fresh g) = (Inr (R, sg, ee, tot, loc0), w0) \<and>
      round_loop E M D engine R sg ee tot [1..R] loc0 w0 = (Inr loc, w1) \<and>
      run_rounds E M D wl engine alpha (fresh g) = (Inr loc, w1) \<and>
      R = min (int (length wl)) (rounds M) \<and> 1 \<le> R"
proof -
  from run_Inr [OF assms] obtain loc w1 l where
    rr: "run_rounds E M D wl engine alpha (fresh g) = (Inr loc, w1)" and l: "loss loc = Some l"
    by blast
  from rr obtain R sg ee tot loc0 w0 where
    i: "run_init E M D wl engine alpha (fresh g) = (Inr (R, sg, ee, tot, loc0), w0)"
    and lp: "round_loop E M D engine R sg ee tot [1..R] loc0 w0 = (Inr loc, w1)"
    unfolding run_rounds_Inr by blast
  from run_init_Inr [OF i] have b: "budget M wl alpha = Inr (R, sg, ee)"
    and z: "measurements loc0 = []" "cliques loc0 = []" "loss loc0 = None" by auto
  from budget_Inr [OF b] have R: "R = min (int (length wl)) (rounds M)" by simp
  have "1 \<le> R"
  proof (rule ccontr)
    assume "\<not> 1 \<le> R"
    then have "[1..R] = []" by simp
    with lp have "loc = loc0" by (simp add: ret_Inr_iff)
    with l z show False by simp
  qed
  with i lp rr R show ?thesis by blast
qed

subsection \<open>The model-size schedule\<close>

lemma round_body_cap:
  assumes "round_body E M D (FactoredInference f) R sg ee tot i loc w = (Inr loc', w')"
  shows "\<exists>ax s. cliques loc' = cliques loc @ [ax] \<and> workload loc' = workload loc \<and>
           size_cliques E (data_domain D) (cliques loc @ [ax]) = Inr s \<and>
           s \<le> max_model_size M * real_of_int i / real_of_int R"
proof -
  from round_body_Inr [OF assms] obtain ax cands where
    c: "candidates_loop E (data_domain D) (cliques loc)
          (max_model_size M * real_of_int i / real_of_int R) (workload loc) = Inr cands"
    and ax: "ax \<in> set cands"
    and l: "cliques loc' = cliques loc @ [ax]" "workload loc' = workload loc"
    by auto
  from candidates_loop_sound [OF c ax] l show ?thesis by blast
qed

lemma round_loop_cap:
  assumes "round_loop E M D (FactoredInference f) R sg ee tot [1..int k] loc0 w0 = (Inr loc, w)"
    and "cliques loc0 = []"
  shows "length (cliques loc) = k \<and>
         (\<forall>i<k. \<exists>s. size_cliques E (data_domain D) (take i (cliques loc) @ [cliques loc ! i]) = Inr s \<and>
                     s \<le> max_model_size M * real (i + 1) / real_of_int R)"
proof (rule round_loop_invariant [where I = "\<lambda>k loc w. length (cliques loc) = k \<and>
         (\<forall>i<k. \<exists>s. size_cliques E (data_domain D) (take i (cliques loc) @ [cliques loc ! i]) = Inr s \<and>
                     s \<le> max_model_size M * real (i + 1) / real_of_int R)", OF _ _ assms(1)])
  show "length (cliques loc0) = 0 \<and>
         (\<forall>i<0. \<exists>s. size_cliques E (data_domain D) (take i (cliques loc0) @ [cliques loc0 ! i]) = Inr s \<and>
                     s \<le> max_model_size M * real (i + 1) / real_of_int R)"
    using assms(2) by simp
next
  fix i loc w loc' w'
  assume inv: "length (cliques loc) = i \<and>
         (\<forall>j<i. \<exists>s. size_cliques E (data_domain D) (take j (cliques loc) @ [cliques loc ! j]) = Inr s \<and>
                     s \<le> max_model_size M * real (j + 1) / real_of_int R)"
    and b: "round_body E M D (FactoredInference f) R sg ee tot (int i + 1) loc w = (Inr loc', w')"
  from round_body_cap [OF b] obtain ax s where
    l: "cliques loc' = cliques loc @ [ax]"
    and s: "size_cliques E (data_domain D) (cliques loc @ [ax]) = Inr s"
       "s \<le> max_model_size M * real_of_int (int i + 1) / real_of_int R"
    by blast
  have "\<exists>s. size_cliques E (data_domain D) (take j (cliques loc') @ [cliques loc' ! j]) = Inr s \<and>
             s \<le> max_model_size M * real (j + 1) / real_of_int R" if "j < Suc i" for j
  proof (cases "j = i")
    case True
    with inv l s show ?thesis by (auto simp: nth_append add.commute)
  next
    case False
    with that have "j < i" by simp
    with inv l show ?thesis by (auto simp: nth_append)
  qed
  with inv l show "length (cliques loc') = Suc i \<and>
         (\<forall>j<Suc i. \<exists>s. size_cliques E (data_domain D) (take j (cliques loc') @ [cliques loc' ! j]) = Inr s \<and>
                     s \<le> max_model_size M * real (j + 1) / real_of_int R)"
    by simp
qed

subsection \<open>The measurement step\<close>

lemma domain_size_Inr:
  "domain_size d cl = Inr n \<longleftrightarrow>
     (\<forall>a \<in> set cl. d a \<noteq> None) \<and> n = prod_list (map (\<lambda>a. the (d a)) cl)"
  by (auto simp: domain_size_def)

lemma recorded_mono: "recorded D sc cs m \<Longrightarrow> set cs \<subseteq> set cs' \<Longrightarrow> recorded D sc cs' m"
  unfolding recorded_def by (auto split: prod.splits)

lemma round_body_recorded:
  assumes b: "round_body E M D engine R sg ee tot i loc w = (Inr loc', w')"
    and n: "normal_contract E" and d: "datavector_contract D"
  shows "\<exists>m. measurements loc' = measurements loc @ [m] \<and>
             cliques loc' = cliques loc @ [snd (snd (snd m))] \<and>
             recorded D (np_mul (Fin (marginal_sensitivity M)) sg) (calls w') m \<and>
             set (calls w) \<subseteq> set (calls w')"
proof -
  from round_body_Inr [OF b] obtain ax cands k p key g0 n x noise y m l g1 g2 where
    ds: "domain_size (data_domain D) ax = Inr n"
    and x: "data_vector D ax = Inr x"
    and nz: "np_random_normal E 0 (np_mul (Fin (marginal_sensitivity M)) sg) n g0 = (Inr noise, g1)"
    and y: "broadcast np_add x noise = Inr y"
    and l': "loc' = loc\<lparr>measurements := measurements loc @ [(Eye n, y, 1, ax)], est := m,
                 loss := Some l, cliques := cliques loc @ [ax]\<rparr>"
    and w': "w' = \<lparr>np_state = g2,
            calls = calls w @
              [Select (est loc) cands ee, Choice k p (Inr key), DataVector ax,
               Normal 0 (np_mul (Fin (marginal_sensitivity M)) sg) n (Inr noise),
               Estimate (measurements loc @ [(Eye n, y, 1, ax)]) tot (Inr (m, l))]\<rparr>"
    by blast
  from l' have l: "measurements loc' = measurements loc @ [(Eye n, y, 1, ax)]"
       "cliques loc' = cliques loc @ [ax]" by simp_all
  from w' have c: "Normal 0 (np_mul (Fin (marginal_sensitivity M)) sg) n (Inr noise) \<in> set (calls w')"
       "set (calls w) \<subseteq> set (calls w')" by auto
  from n nz have ln: "length noise = n" unfolding normal_contract_def by blast
  from d ds x have lx: "length x = n" unfolding datavector_contract_def by blast
  from y ln lx have "y = map2 np_add x noise" by (simp add: broadcast_def)
  with ds x c ln lx have "recorded D (np_mul (Fin (marginal_sensitivity M)) sg) (calls w')
      (Eye n, y, 1, ax)"
    unfolding recorded_def domain_size_Inr by auto
  with l c show ?thesis by auto
qed

lemma round_loop_recorded:
  assumes lp: "round_loop E M D engine R sg ee tot [1..int k] loc0 w0 = (Inr loc, w)"
    and z: "measurements loc0 = []" "cliques loc0 = []"
    and n: "normal_contract E" and d: "datavector_contract D"
  shows "length (measurements loc) = k \<and>
         map (\<lambda>m. snd (snd (snd m))) (measurements loc) = cliques loc \<and>
         list_all (recorded D (np_mul (Fin (marginal_sensitivity M)) sg) (calls w)) (measurements loc)"
proof (rule round_loop_invariant [where I = "\<lambda>k loc w. length (measurements loc) = k \<and>
         map (\<lambda>m. snd (snd (snd m))) (measurements loc) = cliques loc \<and>
         list_all (recorded D (np_mul (Fin (marginal_sensitivity M)) sg) (calls w)) (measurements loc)",
       OF _ _ lp])
  show "length (measurements loc0) = 0 \<and>
         map (\<lambda>m. snd (snd (snd m))) (measurements loc0) = cliques loc0 \<and>
         list_all (recorded D (np_mul (Fin (marginal_sensitivity M)) sg) (calls w0)) (measurements loc0)"
    using z by simp
next
  fix i loc w loc' w'
  assume inv: "length (measurements loc) = i \<and>
         map (\<lambda>m. snd (snd (snd m))) (measurements loc) = cliques loc \<and>
         list_all (recorded D (np_mul (Fin (marginal_sensitivity M)) sg) (calls w)) (measurements loc)"
    and b: "round_body E M D engine R sg ee tot (int i + 1) loc w = (Inr loc', w')"
  from round_body_recorded [OF b n d] obtain m where
    m: "measurements loc' = measurements loc @ [m]"
       "cliques loc' = cliques loc @ [snd (snd (snd m))]"
       "recorded D (np_mul (Fin (marginal_sensitivity M)) sg) (calls w') m"
       "set (calls w) \<subseteq> set (calls w')"
    by blast
  from inv m(4) have
    "list_all (recorded D (np_mul (Fin (marginal_sensitivity M)) sg) (calls w')) (measurements loc)"
    by (auto simp: list_all_iff intro: recorded_mono)
  with inv m show "length (measurements loc') = Suc i \<and>
         map (\<lambda>m. snd (snd (snd m))) (measurements loc') = cliques loc' \<and>
         list_all (recorded D (np_mul (Fin (marginal_sensitivity M)) sg) (calls w')) (measurements loc')"
    by simp
qed

subsection \<open>Every call of a run\<close>

lemma appends_select_step:
  assumes "\<And>m c. P (Select m c ee)" and "\<And>n p r. P (Choice n p r)"
  shows "appends P (select_step E M D engine R ee i loc)"
  unfolding select_step_def
  by (cases engine)
     (auto intro!: appends_bnd appends_lift appends_ret appends_worst_approximated assms)

lemma appends_measure_step:
  assumes "\<And>c. P (DataVector c)"
    and "\<And>n r. P (Normal 0 (np_mul (Fin (marginal_sensitivity M)) sg) n r)"
    and "\<And>ms t r. P (Estimate ms t r)"
  shows "appends P (measure_step E M D engine sg tot ax loc)"
  unfolding measure_step_def
  by (auto intro!: appends_bnd appends_lift appends_ret appends_log appends_ext_call assms)

lemma appends_round_loop:
  assumes "\<And>m c. P (Select m c ee)" and "\<And>n p r. P (Choice n p r)"
    and "\<And>c. P (DataVector c)"
    and "\<And>n r. P (Normal 0 (np_mul (Fin (marginal_sensitivity M)) sg) n r)"
    and "\<And>ms t r. P (Estimate ms t r)"
  shows "appends P (round_loop E M D engine R sg ee tot js loc)"
proof (induction js arbitrary: loc)
  case Nil
  show ?case by (simp add: appends_ret)
next
  case (Cons i js)
  have "appends P (round_body E M D engine R sg ee tot i loc)"
    unfolding round_body_def
    by (auto intro!: appends_bnd appends_select_step appends_measure_step assms)
  with Cons show ?case by (auto intro!: appends_bnd)
qed

lemma appends_run_init:
  assumes "\<And>c. P (DataVector c)" and "\<And>ms t r. P (Estimate ms t r)"
    and "\<And>r. P (NewParticleModel r)"
  shows "appends P (run_init E M D wl engine alpha)"
  unfolding run_init_def Let_def
  by (auto intro!: appends_bnd appends_lift appends_ret appends_answers_loop appends_init_model
      assms)

lemma appends_run_eff:
  assumes "\<And>m c. P (Select m c
              (np_sqrt (8 * (1 - alpha) * (rho M / real_of_int (min (int (length wl)) (rounds M))))))"
    and "\<And>n r. P (Normal 0 (np_mul (Fin (marginal_sensitivity M))
              (np_sqrt (0.5 / (alpha * (rho M / real_of_int (min (int (length wl)) (rounds M))))))) n r)"
    and "\<And>n p r. P (Choice n p r)"
    and "\<And>c. P (DataVector c)"
    and "\<And>ms t r. P (Estimate ms t r)"
    and "\<And>r. P (NewParticleModel r)"
    and "\<And>m r. P (SyntheticData m r)"
  shows "appends P (run_eff E M D wl engine alpha recs)"
proof -
  have "appends P (run_rounds E M D wl engine alpha)"
    unfolding run_rounds_def
  proof (rule appends_bnd)
    show "appends P (run_init E M D wl engine alpha)"
      by (intro appends_run_init assms)
  next
    fix a w w1
    assume i: "run_init E M D wl engine alpha w = (Inr a, w1)"
    obtain R sg ee tot loc0 where a: "a = (R, sg, ee, tot, loc0)"
      by (cases a) auto
    from run_init_Inr [OF i [unfolded a]] have "budget M wl alpha = Inr (R, sg, ee)" by simp
    from budget_Inr [OF this] have
      ee: "ee = np_sqrt (8 * (1 - alpha) * (rho M / real_of_int (min (int (length wl)) (rounds M))))"
      and sg: "sg = np_sqrt (0.5 / (alpha * (rho M / real_of_int (min (int (length wl)) (rounds M)))))"
      by auto
    have "appends P (round_loop E M D engine R sg ee tot [1..R] loc0)"
      unfolding ee sg by (intro appends_round_loop assms)
    with a show "appends P
       (case a of (rnds, sigma, exp_eps, tot, loc) \<Rightarrow>
          round_loop E M D engine rnds sigma exp_eps tot [1..rnds] loc)"
      by simp
  qed
  then show ?thesis
    unfolding run_eff_def
    by (auto intro!: appends_bnd appends_ext_call appends_lift appends_ret assms
        split: option.splits)
qed

subsection \<open>A round without candidates\<close>

lemma bnd_Inl: "f w = (Inl e, w') \<Longrightarrow> bnd f k w = (Inl e, w')"
  by (simp add: bnd_def)

lemma bnd_Inr: "f w = (Inr a, w1) \<Longrightarrow> bnd f k w = k a w1"
  by (simp add: bnd_def)

lemma worst_approximated_empty:
  "worst_approximated E M \<lparr>arg_workload_answers = wa, arg_est = m, arg_workload = []\<rparr> eps penalty w
     = (Inl (ValueError zero_size_max), w\<lparr>calls := calls w @ [Select m [] eps]\<rparr>)"
  by (simp add: worst_approximated_def bnd_def log_def lift_def)

lemma round_body_no_candidates:
  assumes "candidates_loop E (data_domain D) (cliques loc)
             (max_model_size M * real_of_int i / real_of_int R) (workload loc) = Inr []"
  shows "round_body E M D (FactoredInference f) R sg ee tot i loc w
           = (Inl (ValueError zero_size_max), w\<lparr>calls := calls w @ [Select (est loc) [] ee]\<rparr>)"
  unfolding round_body_def select_step_def
  by (simp add: assms worst_approximated_empty bnd_Inl)

subsection \<open>The models of a run\<close>

lemma models_made_append [simp]: "models_made (xs @ ys) = models_made xs @ models_made ys"
  by (simp add: models_made_def)

lemma selections_append [simp]: "selections (xs @ ys) = selections xs @ selections ys"
  by (simp add: selections_def)

lemma no_models_made:
  "list_all (\<lambda>c. \<exists>cl. c = DataVector cl) cs \<Longrightarrow>
     models_made cs = [] \<and> selections cs = []"
  by (induction cs) (auto simp: models_made_def selections_def)

lemma init_model_Inr:
  assumes "init_model E M D engine tot w = (Inr m, w')"
  shows "models_made (calls w') = models_made (calls w) @ [(first_source engine, m)] \<and>
         selections (calls w') = selections (calls w)"
proof (cases engine)
  case (FactoredInference f)
  with assms show ?thesis
    by (auto simp: init_model_def first_source_def bnd_Inr_iff ret_Inr_iff ext_call_Inr_iff
        models_made_def selections_def)
next
  case (AdvancedSlicedInference f e n)
  with assms show ?thesis
    by (auto simp: init_model_def first_source_def ext_call_Inr_iff models_made_def
        selections_def)
qed

lemma run_init_models:
  assumes "run_init E M D wl engine alpha (fresh g) = (Inr (R, sg, ee, tot, loc0), w0)"
  shows "models_made (calls w0) = [(first_source engine, est loc0)] \<and> selections (calls w0) = []"
proof -
  from run_init_Inr [OF assms] obtain w1 where
    a: "answers_loop D wl Map.empty (fresh g) = (Inr (workload_answers loc0), w1)"
    and m: "init_model E M D engine tot w1 = (Inr (est loc0), w0)"
    by blast
  have "appends (\<lambda>c. \<exists>cl. c = DataVector cl)
      (answers_loop D wl Map.empty :: (clique \<rightharpoonup> vec, 'a, 'b) eff)"
    by (rule appends_answers_loop) simp
  from appendsD [OF this a] have "models_made (calls w1) = [] \<and> selections (calls w1) = []"
    by (auto simp: fresh_def dest: no_models_made)
  with init_model_Inr [OF m] show ?thesis by simp
qed

lemma round_body_models:
  assumes "round_body E M D engine R sg ee tot i loc w = (Inr loc', w')"
  shows "\<exists>mm. measurements loc' = measurements loc @ [mm] \<and>
      models_made (calls w') = models_made (calls w) @ [(Some (measurements loc'), est loc')] \<and>
      selections (calls w') = selections (calls w) @ [est loc]"
proof -
  from round_body_Inr [OF assms] obtain ax cands k p key n noise y m l g2 where
    l': "loc' = loc\<lparr>measurements := measurements loc @ [(Eye n, y, 1, ax)], est := m,
                 loss := Some l, cliques := cliques loc @ [ax]\<rparr>"
    and w': "w' = \<lparr>np_state = g2,
            calls = calls w @
              [Select (est loc) cands ee, Choice k p (Inr key), DataVector ax,
               Normal 0 (np_mul (Fin (marginal_sensitivity M)) sg) n (Inr noise),
               Estimate (measurements loc @ [(Eye n, y, 1, ax)]) tot (Inr (m, l))]\<rparr>"
    by blast
  then show ?thesis by (simp add: models_made_def selections_def)
qed

lemma round_loop_models:
  assumes lp: "round_loop E M D engine R sg ee tot [1..int k] loc0 w0 = (Inr loc, w)"
    and z: "measurements loc0 = []"
    and i: "models_made (calls w0) = [(src, est loc0)]" "selections (calls w0) = []"
  shows "length (models_made (calls w)) = Suc k \<and> length (measurements loc) = k \<and>
      (\<forall>j\<le>k. fst (models_made (calls w) ! j) =
                (if j = 0 then src else Some (take j (measurements loc)))) \<and>
      selections (calls w) = butlast (map snd (models_made (calls w))) \<and>
      est loc = snd (last (models_made (calls w)))"
proof (rule round_loop_invariant [where I = "\<lambda>k loc w.
      length (models_made (calls w)) = Suc k \<and> length (measurements loc) = k \<and>
      (\<forall>j\<le>k. fst (models_made (calls w) ! j) =
                (if j = 0 then src else Some (take j (measurements loc)))) \<and>
      selections (calls w) = butlast (map snd (models_made (calls w))) \<and>
      est loc = snd (last (models_made (calls w)))", OF _ _ lp])
  show "length (models_made (calls w0)) = Suc 0 \<and> length (measurements loc0) = 0 \<and>
      (\<forall>j\<le>0. fst (models_made (calls w0) ! j) =
                (if j = 0 then src else Some (take j (measurements loc0)))) \<and>
      selections (calls w0) = butlast (map snd (models_made (calls w0))) \<and>
      est loc0 = snd (last (models_made (calls w0)))"
    using z i by simp
next
  fix i loc w loc' w'
  assume inv: "length (models_made (calls w)) = Suc i \<and> length (measurements loc) = i \<and>
      (\<forall>j\<le>i. fst (models_made (calls w) ! j) =
                (if j = 0 then src else Some (take j (measurements loc)))) \<and>
      selections (calls w) = butlast (map snd (models_made (calls w))) \<and>
      est loc = snd (last (models_made (calls w)))"
    and rb: "round_body E M D engine R sg ee tot (int i + 1) loc w = (Inr loc', w')"
  define mw where "mw = models_made (calls w)"
  from inv have len: "length mw = Suc i" and lm: "length (measurements loc) = i"
    and src: "\<And>j. j \<le> i \<Longrightarrow>
         fst (mw ! j) = (if j = 0 then src else Some (take j (measurements loc)))"
    and sel: "selections (calls w) = butlast (map snd mw)"
    and cur: "est loc = snd (last mw)"
    unfolding mw_def by auto
  from round_body_models [OF rb] obtain mm where
    m': "measurements loc' = measurements loc @ [mm]"
    and mk: "models_made (calls w') = mw @ [(Some (measurements loc'), est loc')]"
    and sl: "selections (calls w') = selections (calls w) @ [est loc]"
    unfolding mw_def by blast
  from len have ne: "mw \<noteq> []" by auto
  have a: "length (models_made (calls w')) = Suc (Suc i)"
    using mk len by simp
  have b: "length (measurements loc') = Suc i"
    using m' lm by simp
  have c: "fst (models_made (calls w') ! j) =
      (if j = 0 then src else Some (take j (measurements loc')))" if "j \<le> Suc i" for j
  proof (cases "j \<le> i")
    case True
    with len have "models_made (calls w') ! j = mw ! j"
      unfolding mk by (simp add: nth_append)
    moreover from True lm have "take j (measurements loc') = take j (measurements loc)"
      unfolding m' by simp
    ultimately show ?thesis using src [OF True] by simp
  next
    case False
    with that have j: "j = Suc i" by simp
    with len have "models_made (calls w') ! j = (Some (measurements loc'), est loc')"
      unfolding mk by (simp add: nth_append)
    moreover from j b have "take j (measurements loc') = measurements loc'" by simp
    ultimately show ?thesis using j by simp
  qed
  from ne have "snd (last mw) = last (map snd mw)"
    by (simp add: last_map)
  with ne have "butlast (map snd mw) @ [snd (last mw)] = map snd mw"
    by simp
  then have d: "selections (calls w') = butlast (map snd (models_made (calls w')))"
    unfolding sl sel cur mk by (simp add: butlast_append)
  have e: "est loc' = snd (last (models_made (calls w')))"
    unfolding mk by simp
  from a b c d e show "length (models_made (calls w')) = Suc (Suc i) \<and>
      length (measurements loc') = Suc i \<and>
      (\<forall>j\<le>Suc i. fst (models_made (calls w') ! j) =
                (if j = 0 then src else Some (take j (measurements loc')))) \<and>
      selections (calls w') = butlast (map snd (models_made (calls w'))) \<and>
      est loc' = snd (last (models_made (calls w')))"
    by blast
qed

subsection \<open>The scores and the distribution on finite numbers\<close>

lemma np_sum_Fin: "np_sum (map Fin zs) = Fin (sum_list zs)"
  by (induction zs) simp_all

lemma map2_sub_Fin:
  "length x = length y \<Longrightarrow> map2 np_sub (map Fin x) (map Fin y) = map Fin (map2 (-) x y)"
  by (induction x y rule: list_induct2) simp_all

lemma broadcast_sub_Fin:
  "length x = length y \<Longrightarrow>
     broadcast np_sub (map Fin x) (map Fin y) = Inr (map Fin (map2 (-) x y))"
  by (simp only: broadcast_def length_map map2_sub_Fin) simp

lemma np_sum_abs_Fin: "np_sum (map np_abs (map Fin zs)) = Fin (\<Sum>z\<leftarrow>zs. \<bar>z\<bar>)"
  by (induction zs) simp_all

lemma l1_distance_Cons: "l1_distance (a # x) (b # y) = \<bar>a - b\<bar> + l1_distance x y"
  unfolding l1_distance_def by (simp only: length_Cons sum.lessThan_Suc_shift) simp

lemma l1_distance_map2:
  "length x = length y \<Longrightarrow> (\<Sum>z\<leftarrow>map2 (-) x y. \<bar>z\<bar>) = l1_distance x y"
proof (induction x y rule: list_induct2)
  case Nil
  show ?case by (simp add: l1_distance_def)
next
  case (Cons a x b y)
  then show ?case by (simp add: l1_distance_Cons)
qed

lemma errors_loop_Fin:
  assumes "\<forall>c \<in> set cls.
      arg_workload_answers a c = Some (map Fin (tx c)) \<and>
      model_project E (arg_est a) c = Inr (map Fin (px c)) \<and>
      length (tx c) = length (px c) \<and>
      (penalty \<longrightarrow> domain_size (model_domain E (arg_est a)) c = Inr (ds c))"
  shows "errors_loop E a penalty cls acc
           = Inr (acc @ map (\<lambda>c. Fin (spec_error tx px ds penalty c)) cls)"
  using assms
proof (induction cls arbitrary: acc)
  case Nil
  show ?case by simp
next
  case (Cons c cls)
  from Cons.prems have c: "arg_workload_answers a c = Some (map Fin (tx c))"
    "model_project E (arg_est a) c = Inr (map Fin (px c))"
    "length (tx c) = length (px c)"
    "penalty \<Longrightarrow> domain_size (model_domain E (arg_est a)) c = Inr (ds c)"
    and rest: "\<forall>c \<in> set cls.
      arg_workload_answers a c = Some (map Fin (tx c)) \<and>
      model_project E (arg_est a) c = Inr (map Fin (px c)) \<and>
      length (tx c) = length (px c) \<and>
      (penalty \<longrightarrow> domain_size (model_domain E (arg_est a)) c = Inr (ds c))"
    by auto
  have score: "np_sum (map np_abs (map Fin (map2 (-) (tx c) (px c))))
      = Fin (l1_distance (tx c) (px c))"
    by (simp only: np_sum_abs_Fin l1_distance_map2 [OF c(3)])
  have step: "errors_loop E a penalty (c # cls) acc
      = errors_loop E a penalty cls (acc @ [Fin (spec_error tx px ds penalty c)])"
  proof (cases penalty)
    case True
    with c(4) have d: "domain_size (model_domain E (arg_est a)) c = Inr (ds c)" by simp
    from True have pt: "penalty = True" by simp
    show ?thesis
      unfolding pt
      by (simp only: errors_loop.simps c(1,2) d if_True sum.case option.case
          broadcast_sub_Fin [OF c(3)] score np_sub.simps spec_error_def)
  next
    case False
    then have pf: "penalty = False" by simp
    show ?thesis
      unfolding pf
      by (simp only: errors_loop.simps c(1,2) if_False sum.case option.case
          broadcast_sub_Fin [OF c(3)] score np_sub.simps spec_error_def of_nat_0)
  qed
  show ?case
    unfolding step Cons.IH [OF rest] by simp
qed

lemma foldl_np_maximum_Fin: "foldl np_maximum (Fin e) (map Fin es) = Fin (foldl max e es)"
  by (induction es arbitrary: e) simp_all

lemma foldl_max_Max: "foldl max e es = Max (set (e # es))"
proof (induction es arbitrary: e)
  case Nil
  show ?case by simp
next
  case (Cons x es)
  have "Max (set (e # x # es)) = Max (insert (max e x) (set es))"
    by (cases "es = []") (simp_all add: max.assoc)
  with Cons [of "max e x"] show ?case by simp
qed

lemma np_max_Fin: "es \<noteq> [] \<Longrightarrow> np_max (map Fin es) = Inr (Fin (Max (set es)))"
  by (cases es) (simp_all add: foldl_np_maximum_Fin foldl_max_Max del: Max_insert set_simps)

lemma sum_list_exp_pos: "z \<noteq> [] \<Longrightarrow> 0 < (\<Sum>b\<leftarrow>z. exp (b::real))"
proof (cases z)
  case Nil
  assume "z \<noteq> []"
  with Nil show ?thesis by simp
next
  case (Cons a l)
  have "0 \<le> sum_list (map exp l)"
    by (rule sum_list_nonneg) auto
  with exp_gt_zero [of a] show ?thesis
    unfolding Cons by (simp add: add_pos_nonneg)
qed

lemma softmax_Fin: "softmax (map Fin z) = map Fin (spec_softmax z)"
proof (cases "z = []")
  case True
  then show ?thesis by (simp add: softmax_def spec_softmax_def)
next
  case False
  from sum_list_exp_pos [OF False] have "(\<Sum>b\<leftarrow>z. exp b) \<noteq> 0" by simp
  moreover have "map np_exp (map Fin z) = map Fin (map exp z)" by simp
  ultimately show ?thesis
    unfolding softmax_def spec_softmax_def Let_def
    by (simp only: np_sum_Fin) (simp add: comp_def)
qed

lemma selection_prob_Fin:
  assumes "sensitivity M \<noteq> 0"
  shows "selection_prob M (Fin eps) (map Fin errs) (Fin (Max (set errs)))
           = map Fin (spec_distribution eps (sensitivity M) errs)"
proof -
  have "map (\<lambda>e. np_mul (np_div (np_mul (Fin 0.5) (Fin eps)) (Fin (sensitivity M)))
                 (np_sub e (Fin (Max (set errs))))) (map Fin errs)
      = map Fin (map (\<lambda>e. eps / (2 * sensitivity M) * (e - Max (set errs))) errs)"
    using assms by simp
  then show ?thesis
    unfolding selection_prob_def spec_distribution_def by (simp only: softmax_Fin)
qed

subsection \<open>The methods do not read \<open>prng\<close>\<close>

lemma worst_approximated_cong:
  "same_hyperparameters M' M \<Longrightarrow>
     worst_approximated E M' a eps penalty = worst_approximated E M a eps penalty"
  by (simp add: worst_approximated_def selection_prob_def same_hyperparameters_def)

lemma budget_cong:
  "same_hyperparameters M' M \<Longrightarrow> budget M' wl alpha = budget M wl alpha"
  by (simp add: budget_def Let_def same_hyperparameters_def)

lemma init_model_cong:
  "same_hyperparameters M' M \<Longrightarrow>
     init_model E M' D engine tot = init_model E M D engine tot"
  by (cases engine) (simp_all add: init_model_def same_hyperparameters_def)

lemma run_init_cong:
  assumes "same_hyperparameters M' M"
  shows "run_init E M' D wl engine alpha = run_init E M D wl engine alpha"
proof -
  from assms have b: "bounded M' = bounded M"
    by (simp add: same_hyperparameters_def)
  show ?thesis
    unfolding run_init_def budget_cong [OF assms] b init_model_cong [OF assms] ..
qed

lemma select_step_cong:
  assumes "same_hyperparameters M' M"
  shows "select_step E M' D engine R ee i loc = select_step E M D engine R ee i loc"
proof -
  from assms have "max_model_size M' = max_model_size M"
    by (simp add: same_hyperparameters_def)
  then show ?thesis
    by (cases engine) (simp_all add: select_step_def worst_approximated_cong [OF assms])
qed

lemma measure_step_cong:
  assumes "same_hyperparameters M' M"
  shows "measure_step E M' D engine sg tot ax loc = measure_step E M D engine sg tot ax loc"
proof -
  from assms have "marginal_sensitivity M' = marginal_sensitivity M"
    by (simp add: same_hyperparameters_def)
  then show ?thesis
    by (simp add: measure_step_def)
qed

lemma round_body_cong:
  assumes "same_hyperparameters M' M"
  shows "round_body E M' D engine R sg ee tot i loc = round_body E M D engine R sg ee tot i loc"
proof -
  have "(\<lambda>(ax, loc'). measure_step E M' D engine sg tot ax loc')
      = (\<lambda>(ax, loc'). measure_step E M D engine sg tot ax loc')"
    by (auto simp: fun_eq_iff measure_step_cong [OF assms])
  then show ?thesis
    unfolding round_body_def select_step_cong [OF assms] by simp
qed

lemma round_loop_cong:
  assumes "same_hyperparameters M' M"
  shows "round_loop E M' D engine R sg ee tot js loc = round_loop E M D engine R sg ee tot js loc"
proof (induction js arbitrary: loc)
  case Nil
  show ?case by simp
next
  case (Cons i js)
  have "round_loop E M' D engine R sg ee tot js = round_loop E M D engine R sg ee tot js"
    by (rule ext) (rule Cons.IH)
  then show ?case by (simp add: round_body_cong [OF assms])
qed

section \<open>The claims\<close>

text \<open>
  C1. Let \<open>R = min(len(workload), self.rounds) \<ge> 1\<close>, \<open>rho > 0\<close> and \<open>0 < alpha < 1\<close>, and write
  \<open>rho_r = rho / R\<close>. The budget computed at the start of \<open>run\<close> is
  \<open>sigma = sqrt(0.5 / (alpha * rho_r))\<close> and \<open>eps_sel = sqrt(8 * (1 - alpha) * rho_r)\<close>, with
  \<open>R\<close> rounds. However the run ends, every selection it made was given the strength
  \<open>eps_sel\<close>, and every Gaussian draw asked for mean \<open>0\<close> and scale
  \<open>marginal_sensitivity * sigma\<close>: the same values in every round.
\<close>

theorem budget_split_used_every_round:
  assumes "1 \<le> min (int (length wl)) (rounds M)" and "0 < rho M"
    and "0 < alpha" and "alpha < 1"
  shows "budget M wl alpha =
           Inr (min (int (length wl)) (rounds M),
                Fin (sqrt (0.5 / (alpha * (rho M / real_of_int (min (int (length wl)) (rounds M)))))),
                Fin (sqrt (8 * (1 - alpha) * (rho M / real_of_int (min (int (length wl)) (rounds M)))))) \<and>
         list_all
           (split_used
              (Fin (sqrt (8 * (1 - alpha) * (rho M / real_of_int (min (int (length wl)) (rounds M))))))
              (Fin (marginal_sensitivity M *
                    sqrt (0.5 / (alpha * (rho M / real_of_int (min (int (length wl)) (rounds M))))))))
           (calls (snd (run E M D wl engine alpha recs g)))"
proof -
  let ?R = "min (int (length wl)) (rounds M)"
  let ?rr = "rho M / real_of_int ?R"
  from assms(1) have "0 < real_of_int ?R" by linarith
  with assms(2) have rr: "0 < ?rr" by (rule divide_pos_pos)
  with assms have s: "np_sqrt (0.5 / (alpha * ?rr)) = Fin (sqrt (0.5 / (alpha * ?rr)))"
    and e: "np_sqrt (8 * (1 - alpha) * ?rr) = Fin (sqrt (8 * (1 - alpha) * ?rr))"
    by (simp_all add: np_sqrt_def not_less)
  from assms rr have b: "budget M wl alpha =
      Inr (?R, Fin (sqrt (0.5 / (alpha * ?rr))), Fin (sqrt (8 * (1 - alpha) * ?rr)))"
    unfolding budget_def Let_def s e by auto
  have "appends
      (split_used (Fin (sqrt (8 * (1 - alpha) * ?rr)))
         (Fin (marginal_sensitivity M * sqrt (0.5 / (alpha * ?rr)))))
      (run_eff E M D wl engine alpha recs)"
    by (rule appends_run_eff) (unfold s e, simp_all add: split_used_def)
  from appendsD [OF this, of "fresh g"] b show ?thesis
    by (cases "run E M D wl engine alpha recs g") (auto simp: run_def fresh_def)
qed

theorem budget_split_used_every_round_witness:
  "1 \<le> min (int (length ex_workload)) (rounds ex_mwem) \<and> 0 < rho ex_mwem \<and>
   (0::real) < 9 / 10 \<and> (9 / 10 :: real) < 1 \<and>
   budget ex_mwem ex_workload (9 / 10) = Inr (2, Fin (sqrt (10 / 9)), Fin (sqrt (2 / 5))) \<and>
   list_all (split_used (Fin (sqrt (2 / 5))) (Fin (sqrt (10 / 9))))
     (calls (snd (run ex_env ex_mwem ex_data ex_workload (FactoredInference ex_fit) (9 / 10) None 0))) \<and>
   filter (\<lambda>c. case c of Select m cs e \<Rightarrow> True | Normal l s n r \<Rightarrow> True | _ \<Rightarrow> False)
     (calls (snd (run ex_env ex_mwem ex_data ex_workload (FactoredInference ex_fit) (9 / 10) None 0)))
   = [Select 0 [[''A''], [''B'']] (Fin (sqrt (2 / 5))), Normal 0 (Fin (sqrt (10 / 9))) 2 (Inr [Fin 0, Fin 0]),
      Select 1 [[''A''], [''B'']] (Fin (sqrt (2 / 5))), Normal 0 (Fin (sqrt (10 / 9))) 2 (Inr [Fin 0, Fin 0])]"
  using budget_split_used_every_round
    [of ex_workload ex_mwem "9 / 10" ex_env ex_data "FactoredInference ex_fit" None 0]
  by (simp add: run_defs eff_defs ex_defs selection_prob_def softmax_def eval_nat_numeral)






text \<open>
  C4 (as amended). \<open>worst_approximated\<close> called with an empty candidate list fails: after
  its entry nothing is called, and \<open>errors.max()\<close> on the empty array raises numpy's
  \<open>ValueError\<close>. \<open>run\<close> does not guard against that case. With a \<open>FactoredInference\<close>
  engine, when the rounds before round \<open>i\<close> have completed and the candidate list of
  round \<open>i\<close> comes out empty, \<open>run\<close> passes the empty list to \<open>worst_approximated\<close> and fails
  with that same \<open>ValueError\<close>; the error carries numpy's message, not the round or the cap.
\<close>

theorem empty_candidates_reach_selector:
  assumes "run_upto E M D wl (FactoredInference f) alpha (i - 1) (fresh g) = (Inr loc, w)"
    and "1 \<le> i" and "i \<le> min (int (length wl)) (rounds M)"
    and "candidates_loop E (data_domain D) (cliques loc)
           (max_model_size M * real_of_int i / real_of_int (min (int (length wl)) (rounds M)))
           (workload loc) = Inr []"
  shows "worst_approximated E M \<lparr>arg_workload_answers = wa, arg_est = m, arg_workload = []\<rparr>
           eps penalty wx
           = (Inl (ValueError zero_size_max), wx\<lparr>calls := calls wx @ [Select m [] eps]\<rparr>) \<and>
         run E M D wl (FactoredInference f) alpha recs g
           = (Inl (ValueError zero_size_max),
              w\<lparr>calls := calls w @
                 [Select (est loc) []
                    (np_sqrt (8 * (1 - alpha) *
                       (rho M / real_of_int (min (int (length wl)) (rounds M)))))]\<rparr>)"
proof -
  from assms(1) obtain R sg ee tot loc0 w1 where
    i: "run_init E M D wl (FactoredInference f) alpha (fresh g) = (Inr (R, sg, ee, tot, loc0), w1)"
    and lp: "round_loop E M D (FactoredInference f) R sg ee tot [1..i - 1] loc0 w1 = (Inr loc, w)"
    unfolding run_upto_Inr by blast
  from run_init_Inr [OF i] have b: "budget M wl alpha = Inr (R, sg, ee)" by simp
  from budget_Inr [OF b] have R: "R = min (int (length wl)) (rounds M)"
    and ee: "ee = np_sqrt (8 * (1 - alpha) * (rho M / real_of_int R))" by simp_all
  from assms(2,3) R have "[1..R] = [1..i - 1] @ [i - 1 + 1..R]"
    by (intro upto_split_at) auto
  also from assms(3) R have "[i - 1 + 1..R] = i # [i + 1..R]"
    by (simp add: upto_rec1)
  finally have split: "[1..R] = [1..i - 1] @ i # [i + 1..R]" .
  from assms(4) R have
    "round_body E M D (FactoredInference f) R sg ee tot i loc w
       = (Inl (ValueError zero_size_max), w\<lparr>calls := calls w @ [Select (est loc) [] ee]\<rparr>)"
    by (intro round_body_no_candidates) simp
  then have "round_loop E M D (FactoredInference f) R sg ee tot (i # [i + 1..R]) loc w
       = (Inl (ValueError zero_size_max), w\<lparr>calls := calls w @ [Select (est loc) [] ee]\<rparr>)"
    by (simp add: bnd_Inl)
  with lp have "round_loop E M D (FactoredInference f) R sg ee tot [1..R] loc0 w1
       = (Inl (ValueError zero_size_max), w\<lparr>calls := calls w @ [Select (est loc) [] ee]\<rparr>)"
    unfolding split round_loop_append by (simp add: bnd_Inr)
  with i have "run_rounds E M D wl (FactoredInference f) alpha (fresh g)
       = (Inl (ValueError zero_size_max), w\<lparr>calls := calls w @ [Select (est loc) [] ee]\<rparr>)"
    unfolding run_rounds_def by (simp add: bnd_Inr)
  then have "run E M D wl (FactoredInference f) alpha recs g
       = (Inl (ValueError zero_size_max), w\<lparr>calls := calls w @ [Select (est loc) [] ee]\<rparr>)"
    unfolding run_def run_eff_def by (simp add: bnd_Inl)
  with ee R worst_approximated_empty show ?thesis by simp
qed

theorem empty_candidates_reach_selector_witness:
  "fst (run_upto ex_env (ex_mwem\<lparr>max_model_size := 0\<rparr>) ex_data ex_workload
          (FactoredInference ex_fit) (9 / 10) (1 - 1) (fresh 0))
     = Inr \<lparr>workload = ex_workload,
            workload_answers = [[''A''] \<mapsto> [Fin 1, Fin 1], [''B''] \<mapsto> [Fin 1, Fin 1, Fin 1],
               [''A'', ''B''] \<mapsto> [Fin 1, Fin 1, Fin 1, Fin 1, Fin 1, Fin 1]],
            measurements = [], est = 0, cliques = [], loss = None\<rparr> \<and>
   (1::int) \<le> 1 \<and> 1 \<le> min (int (length ex_workload)) (rounds (ex_mwem\<lparr>max_model_size := 0\<rparr>)) \<and>
   candidates_loop ex_env (data_domain ex_data) []
     (max_model_size (ex_mwem\<lparr>max_model_size := 0\<rparr>) * real_of_int 1 /
        real_of_int (min (int (length ex_workload)) (rounds (ex_mwem\<lparr>max_model_size := 0\<rparr>))))
     ex_workload = Inr [] \<and>
   run ex_env (ex_mwem\<lparr>max_model_size := 0\<rparr>) ex_data ex_workload (FactoredInference ex_fit)
       (9 / 10) None 0
     = (Inl (ValueError zero_size_max),
        \<lparr>np_state = 1,
         calls = [DataVector [''A''], DataVector [''B''], DataVector [''A'', ''B''],
                  Estimate [] (Some 10) (Inr (0, 0)), Select 0 [] (Fin (sqrt (2 / 5)))]\<rparr>)"
proof -
  have r: "run_upto ex_env (ex_mwem\<lparr>max_model_size := 0\<rparr>) ex_data ex_workload
          (FactoredInference ex_fit) (9 / 10) (1 - 1) (fresh 0)
     = (Inr \<lparr>workload = ex_workload,
            workload_answers = [[''A''] \<mapsto> [Fin 1, Fin 1], [''B''] \<mapsto> [Fin 1, Fin 1, Fin 1],
               [''A'', ''B''] \<mapsto> [Fin 1, Fin 1, Fin 1, Fin 1, Fin 1, Fin 1]],
            measurements = [], est = 0, cliques = [], loss = None\<rparr>,
        \<lparr>np_state = 1,
         calls = [DataVector [''A''], DataVector [''B''], DataVector [''A'', ''B''],
                  Estimate [] (Some 10) (Inr (0, 0))]\<rparr>)"
    by (simp add: run_defs eff_defs ex_defs eval_nat_numeral)
  have k: "1 \<le> min (int (length ex_workload)) (rounds (ex_mwem\<lparr>max_model_size := 0\<rparr>))"
    by (simp add: ex_defs)
  have c: "candidates_loop ex_env (data_domain ex_data)
     (cliques \<lparr>workload = ex_workload,
            workload_answers = [[''A''] \<mapsto> [Fin 1, Fin 1], [''B''] \<mapsto> [Fin 1, Fin 1, Fin 1],
               [''A'', ''B''] \<mapsto> [Fin 1, Fin 1, Fin 1, Fin 1, Fin 1, Fin 1]],
            measurements = [], est = 0 :: nat, cliques = [], loss = None\<rparr>)
     (max_model_size (ex_mwem\<lparr>max_model_size := 0\<rparr>) * real_of_int 1 /
        real_of_int (min (int (length ex_workload)) (rounds (ex_mwem\<lparr>max_model_size := 0\<rparr>))))
     (workload \<lparr>workload = ex_workload,
            workload_answers = [[''A''] \<mapsto> [Fin 1, Fin 1], [''B''] \<mapsto> [Fin 1, Fin 1, Fin 1],
               [''A'', ''B''] \<mapsto> [Fin 1, Fin 1, Fin 1, Fin 1, Fin 1, Fin 1]],
            measurements = [], est = 0 :: nat, cliques = [], loss = None\<rparr>) = Inr []"
    by (simp add: run_defs ex_defs)
  from empty_candidates_reach_selector
    [where recs = None and wa = Map.empty and m = "0::nat" and eps = "Fin 1" and penalty = True
       and wx = "fresh (0::nat)", OF r _ k c] r k c
  show ?thesis
    by (simp add: ex_defs np_sqrt_def)
qed

text \<open>
  C4 as stated fails. In the scenario with \<open>max_model_size = 0\<close> no clique fits the cap of
  round \<open>1\<close>; the log shows \<open>worst_approximated\<close> entered with the empty candidate list, and
  the error of the run is numpy's, about the maximum of an empty array.
\<close>

theorem empty_candidates_not_guarded:
  "run ex_env (ex_mwem\<lparr>max_model_size := 0\<rparr>) ex_data ex_workload (FactoredInference ex_fit)
       (9 / 10) None 0
     = (Inl (ValueError
          ''zero-size array to reduction operation maximum which has no identity''),
        \<lparr>np_state = 1,
         calls = [DataVector [''A''], DataVector [''B''], DataVector [''A'', ''B''],
                  Estimate [] (Some 10) (Inr (0, 0)), Select 0 [] (Fin (sqrt (2 / 5)))]\<rparr>)"
  by (simp add: run_defs eff_defs ex_defs selection_prob_def softmax_def zero_size_max_def
      eval_nat_numeral)

text \<open>
  C5. When \<open>run\<close> completes, the number of rounds \<open>R = min(len(workload), self.rounds)\<close>
  is at least \<open>1\<close> and the measurement log at the end of the loop has exactly \<open>R\<close>
  entries. At the end of every round \<open>k\<close> (and before the first, \<open>k = 0\<close>) the log has
  \<open>k\<close> entries, and they are the first \<open>k\<close> entries of the final log: one measurement is
  appended per round and none is changed or removed.
\<close>

theorem measurement_log_length:
  assumes "run E M D wl engine alpha recs g = (Inr res, w)"
  shows "\<exists>loc w1.
      run_rounds E M D wl engine alpha (fresh g) = (Inr loc, w1) \<and>
      1 \<le> min (int (length wl)) (rounds M) \<and>
      length (measurements loc) = nat (min (int (length wl)) (rounds M)) \<and>
      (\<forall>k \<le> nat (min (int (length wl)) (rounds M)). \<exists>lk wk.
         run_upto E M D wl engine alpha (int k) (fresh g) = (Inr lk, wk) \<and>
         length (measurements lk) = k \<and>
         measurements lk = take k (measurements loc))"
proof -
  from run_completes_rounds [OF assms] obtain R sg ee tot loc0 w0 loc w1 where
    i: "run_init E M D wl engine alpha (fresh g) = (Inr (R, sg, ee, tot, loc0), w0)"
    and lp: "round_loop E M D engine R sg ee tot [1..R] loc0 w0 = (Inr loc, w1)"
    and rr: "run_rounds E M D wl engine alpha (fresh g) = (Inr loc, w1)"
    and R: "R = min (int (length wl)) (rounds M)" and R1: "1 \<le> R"
    by blast
  from run_init_Inr [OF i] have
    z: "measurements loc0 = []" "cliques loc0 = []" "loss loc0 = None" by auto
  from R1 have Rn: "R = int (nat R)" by simp
  from lp Rn have "round_loop E M D engine R sg ee tot [1..int (nat R)] loc0 w0 = (Inr loc, w1)"
    by simp
  from round_loop_lengths [OF this z] have len: "length (measurements loc) = nat R" by simp
  have "\<exists>lk wk. run_upto E M D wl engine alpha (int k) (fresh g) = (Inr lk, wk) \<and>
         length (measurements lk) = k \<and> measurements lk = take k (measurements loc)"
    if k: "k \<le> nat R" for k
  proof -
    from k R1 have "[1..R] = [1..int k] @ [int k + 1..R]"
      by (intro upto_split_at) auto
    with lp obtain lk wk where
      a: "round_loop E M D engine R sg ee tot [1..int k] loc0 w0 = (Inr lk, wk)"
      and b: "round_loop E M D engine R sg ee tot [int k + 1..R] lk wk = (Inr loc, w1)"
      by (auto simp: round_loop_append bnd_Inr_iff)
    from round_loop_lengths [OF a z] have lk: "length (measurements lk) = k" by simp
    from round_loop_prefix [OF b] lk have "measurements lk = take k (measurements loc)" by auto
    with a i lk show ?thesis unfolding run_upto_Inr by blast
  qed
  with rr R R1 len show ?thesis by blast
qed

theorem measurement_log_length_witness:
  "fst (run ex_env ex_mwem ex_data ex_workload (FactoredInference ex_fit) (9 / 10) None 0)
     = Inr (10, 0) \<and>
   map (\<lambda>k. map_sum id (\<lambda>l. length (measurements l))
         (fst (run_upto ex_env ex_mwem ex_data ex_workload (FactoredInference ex_fit) (9 / 10)
            (int k) (fresh 0)))) [0, 1, 2] = [Inr 0, Inr 1, Inr 2] \<and>
   nat (min (int (length ex_workload)) (rounds ex_mwem)) = 2"
  using measurement_log_length
    [of ex_env ex_mwem ex_data ex_workload "FactoredInference ex_fit" "9 / 10" None 0 "(10, 0)"
      "snd (run ex_env ex_mwem ex_data ex_workload (FactoredInference ex_fit) (9 / 10) None 0)"]
  by (simp add: run_defs eff_defs ex_defs selection_prob_def softmax_def eval_nat_numeral)



text \<open>
  C7. With a \<open>FactoredInference\<close> engine, look at the run at the end of round \<open>k\<close>, for any
  \<open>k\<close> up to \<open>R = min(len(workload), self.rounds)\<close>. Then \<open>cliques\<close> holds the \<open>k\<close> cliques
  selected so far, and for every round \<open>i + 1 \<le> k\<close> the clique selected in it,
  \<open>cliques[i]\<close>, added to the cliques selected before it, \<open>cliques[:i]\<close>, has
  \<open>size(cliques[:i] + [cliques[i]]) \<le> max_model_size * (i + 1) / R\<close>. At the end of the
  last round, \<open>k = R\<close>, the size of all selected cliques is at most \<open>max_model_size\<close>.
  Sizes and caps are compared as real numbers.
\<close>

theorem model_size_cap:
  assumes "run_upto E M D wl (FactoredInference f) alpha (int k) (fresh g) = (Inr loc, w)"
    and "int k \<le> min (int (length wl)) (rounds M)"
  shows "length (cliques loc) = k \<and>
     (\<forall>i<k. \<exists>s.
        size_cliques E (data_domain D) (take i (cliques loc) @ [cliques loc ! i]) = Inr s \<and>
        s \<le> max_model_size M * real (i + 1) / real_of_int (min (int (length wl)) (rounds M))) \<and>
     (0 < k \<and> int k = min (int (length wl)) (rounds M) \<longrightarrow>
        (\<exists>s. size_cliques E (data_domain D) (cliques loc) = Inr s \<and> s \<le> max_model_size M))"
proof -
  from assms(1) obtain R sg ee tot loc0 w0 where
    i: "run_init E M D wl (FactoredInference f) alpha (fresh g) = (Inr (R, sg, ee, tot, loc0), w0)"
    and lp: "round_loop E M D (FactoredInference f) R sg ee tot [1..int k] loc0 w0 = (Inr loc, w)"
    unfolding run_upto_Inr by blast
  from run_init_Inr [OF i] have b: "budget M wl alpha = Inr (R, sg, ee)"
    and z: "cliques loc0 = []" by auto
  from budget_Inr [OF b] have R: "R = min (int (length wl)) (rounds M)" by simp
  note cap = round_loop_cap [OF lp z]
  have "\<exists>s. size_cliques E (data_domain D) (cliques loc) = Inr s \<and> s \<le> max_model_size M"
    if k: "0 < k" "int k = R"
  proof -
    from k cap obtain s where
      s: "size_cliques E (data_domain D) (take (k - 1) (cliques loc) @ [cliques loc ! (k - 1)]) = Inr s"
         "s \<le> max_model_size M * real (k - 1 + 1) / real_of_int R"
      by (metis diff_less zero_less_one)
    from cap k have "take (k - 1) (cliques loc) @ [cliques loc ! (k - 1)] = cliques loc"
      by (metis Suc_pred' diff_less order_refl take_Suc_conv_app_nth take_all zero_less_one)
    moreover from k have "max_model_size M * real (k - 1 + 1) / real_of_int R = max_model_size M"
      by (simp flip: k(2))
    ultimately show ?thesis using s by simp
  qed
  with cap R show ?thesis by simp
qed

theorem model_size_cap_witness:
  "map_sum id cliques
     (fst (run_upto ex_env ex_mwem ex_data ex_workload (FactoredInference ex_fit) (9 / 10)
        (int 2) (fresh 0))) = Inr [[''A''], [''A'']] \<and>
   int 2 \<le> min (int (length ex_workload)) (rounds ex_mwem) \<and>
   size_cliques ex_env (data_domain ex_data) [[''A'']] = Inr 1 \<and>
   size_cliques ex_env (data_domain ex_data) [[''A''], [''A'']] = Inr 2 \<and>
   max_model_size ex_mwem = 2"
  using model_size_cap
    [of ex_env ex_mwem ex_data ex_workload ex_fit "9 / 10" 2 0
      "projr (fst (run_upto ex_env ex_mwem ex_data ex_workload (FactoredInference ex_fit) (9 / 10)
        (int 2) (fresh 0)))"
      "snd (run_upto ex_env ex_mwem ex_data ex_workload (FactoredInference ex_fit) (9 / 10)
        (int 2) (fresh 0))"]
  by (simp add: run_defs eff_defs ex_defs selection_prob_def softmax_def eval_nat_numeral)



text \<open>
  C9 (as amended). Take the run at the end of round \<open>k\<close>, for any \<open>k\<close> up to
  \<open>R = min(len(workload), self.rounds)\<close>. It has obtained \<open>k + 1\<close> models, in this order.
  Model number \<open>0\<close>, the one round \<open>1\<close> selects with, is what \<open>engine.estimate\<close> returned for the
  empty measurement sequence when the engine is a \<open>FactoredInference\<close>; for any other engine
  it is built by \<open>ParticleModel(...)\<close>, and \<open>estimate\<close> is not called for it. The model
  number \<open>j \<ge> 1\<close> is what \<open>estimate\<close> returned for the whole log after round \<open>j\<close>, that is
  the first \<open>j\<close> measurements. Round \<open>j + 1\<close> selects with model number \<open>j\<close>, and the
  current model is the last one.
\<close>

theorem models_of_run:
  assumes "run_upto E M D wl engine alpha (int k) (fresh g) = (Inr loc, w)"
    and "int k \<le> min (int (length wl)) (rounds M)"
  shows "length (models_made (calls w)) = Suc k \<and> length (measurements loc) = k \<and>
      (\<forall>j\<le>k. fst (models_made (calls w) ! j) =
                (if j = 0 then first_source engine else Some (take j (measurements loc)))) \<and>
      selections (calls w) = butlast (map snd (models_made (calls w))) \<and>
      est loc = snd (last (models_made (calls w)))"
proof -
  from assms(1) obtain R sg ee tot loc0 w0 where
    i: "run_init E M D wl engine alpha (fresh g) = (Inr (R, sg, ee, tot, loc0), w0)"
    and lp: "round_loop E M D engine R sg ee tot [1..int k] loc0 w0 = (Inr loc, w)"
    unfolding run_upto_Inr by blast
  from run_init_Inr [OF i] have z: "measurements loc0 = []" by simp
  from run_init_models [OF i] have
    m: "models_made (calls w0) = [(first_source engine, est loc0)]" "selections (calls w0) = []"
    by simp_all
  from round_loop_models [OF lp z m] show ?thesis .
qed

theorem models_of_run_witness:
  "map_sum id est
     (fst (run_upto ex_env ex_mwem ex_data ex_workload (FactoredInference ex_fit) (9 / 10)
        (int 2) (fresh 0))) = Inr 2 \<and>
   int 2 \<le> min (int (length ex_workload)) (rounds ex_mwem) \<and>
   models_made (calls (snd (run_upto ex_env ex_mwem ex_data ex_workload
        (FactoredInference ex_fit) (9 / 10) (int 2) (fresh 0))))
     = [(Some [], 0),
        (Some [(Eye 2, [Fin 1, Fin 1], 1, [''A''])], 1),
        (Some [(Eye 2, [Fin 1, Fin 1], 1, [''A'']), (Eye 2, [Fin 1, Fin 1], 1, [''A''])], 2)] \<and>
   selections (calls (snd (run_upto ex_env ex_mwem ex_data ex_workload
        (FactoredInference ex_fit) (9 / 10) (int 2) (fresh 0)))) = [0, 1]"
  using models_of_run
    [of ex_env ex_mwem ex_data ex_workload "FactoredInference ex_fit" "9 / 10" 2 0
      "projr (fst (run_upto ex_env ex_mwem ex_data ex_workload (FactoredInference ex_fit) (9 / 10)
        (int 2) (fresh 0)))"
      "snd (run_upto ex_env ex_mwem ex_data ex_workload (FactoredInference ex_fit) (9 / 10)
        (int 2) (fresh 0))"]
  by (simp add: run_defs eff_defs ex_defs selection_prob_def softmax_def eval_nat_numeral
      models_made_def selections_def)

text \<open>
  C9 as stated fails for an engine that is not a \<open>FactoredInference\<close>. In the scenario
  with such an engine the first model is the one \<open>ParticleModel\<close> built (\<open>100\<close>); round
  \<open>1\<close> selects with it, and \<open>estimate\<close> is never called with an empty sequence, whose
  result would have been the model \<open>0\<close>.
\<close>

theorem particle_engine_initial_model:
  "models_made (calls (snd (run ex_env ex_mwem ex_data ex_workload
        (AdvancedSlicedInference ex_fit () 5) (9 / 10) None 0)))
     = [(None, 100),
        (Some [(Eye 2, [Fin 1, Fin 1], 1, [''A''])], 1),
        (Some [(Eye 2, [Fin 1, Fin 1], 1, [''A'']), (Eye 2, [Fin 1, Fin 1], 1, [''A''])], 2)] \<and>
   selections (calls (snd (run ex_env ex_mwem ex_data ex_workload
        (AdvancedSlicedInference ex_fit () 5) (9 / 10) None 0))) = [100, 1] \<and>
   fst (ex_fit [] (Some 10) 0) = Inr (0, 0) \<and>
   fst (run ex_env ex_mwem ex_data ex_workload (AdvancedSlicedInference ex_fit () 5) (9 / 10)
        None 0) = Inr (10, 0)"
  by (simp add: run_defs eff_defs ex_defs selection_prob_def softmax_def eval_nat_numeral
      models_made_def selections_def)




end
